theory Spec2Isabelle
  imports Main "HOL-Library.Sublist"
begin

section \<open>JavaScript values read by the services\<close>

text \<open>
  Both services (\<^verbatim>\<open>openai-service.ts\<close> and the document analyzer) work on
  JavaScript strings and on the values \<^verbatim>\<open>JSON.parse\<close> returns. A JavaScript
  string is modelled as a \<open>string\<close>: one \<open>char\<close> per UTF-16 code unit, for texts whose
  code units lie below U+0100. A number is kept as the decimal literal it was read from:
  \<open>JNum neg m e\<close> stands for \<open>m * 10^e\<close>, negated when \<open>neg\<close> holds. The members of
  an object are kept in the order of the text.
\<close>

datatype json =
    JNull
  | JBool bool
  | JNum bool nat int
  | JStr string
  | JArr "json list"
  | JObj "(string \<times> json) list"

text \<open>
  The value of a number literal as an IEEE double is zero exactly when its magnitude is at
  most \<open>2^-1075\<close> (half of the least subnormal, the tie going to the even neighbour zero).
\<close>

definition num_is_zero :: "nat \<Rightarrow> int \<Rightarrow> bool" where
  "num_is_zero m e =
     (if 0 \<le> e then m = 0 else m * 2 ^ 1075 \<le> 10 ^ nat (- e))"

text \<open>JavaScript truthiness (\<^verbatim>\<open>if (v)\<close>, \<^verbatim>\<open>!v\<close>, \<^verbatim>\<open>v || d\<close>) of a JSON value.\<close>

fun truthy :: "json \<Rightarrow> bool" where
  "truthy JNull = False"
| "truthy (JBool b) = b"
| "truthy (JNum neg m e) = (\<not> num_is_zero m e)"
| "truthy (JStr s) = (s \<noteq> [])"
| "truthy (JArr vs) = True"
| "truthy (JObj kvs) = True"

text \<open>
  Property reads. \<open>None\<close> is \<^verbatim>\<open>undefined\<close>. \<open>get_prop v k\<close> is \<^verbatim>\<open>v.k\<close> for a value
  \<open>v\<close> that is neither \<^verbatim>\<open>null\<close> nor \<^verbatim>\<open>undefined\<close> and for the property names this
  program reads (\<^verbatim>\<open>choices\<close>, \<^verbatim>\<open>delta\<close>, \<^verbatim>\<open>message\<close>, \<^verbatim>\<open>content\<close> and the fields of
  the analysis): none of them is inherited from a prototype, so an object answers with
  its own member (the last one of that name, as \<^verbatim>\<open>JSON.parse\<close> keeps it) and every
  other value with \<^verbatim>\<open>undefined\<close>. \<open>index0 v\<close> is \<^verbatim>\<open>v[0]\<close>.
\<close>

fun get_prop :: "json \<Rightarrow> string \<Rightarrow> json option" where
  "get_prop (JObj kvs) k = map_of (rev kvs) k"
| "get_prop v k = None"

fun index0 :: "json \<Rightarrow> json option" where
  "index0 (JObj kvs) = map_of (rev kvs) ''0''"
| "index0 (JArr []) = None"
| "index0 (JArr (v # vs)) = Some v"
| "index0 (JStr []) = None"
| "index0 (JStr (c # cs)) = Some (JStr [c])"
| "index0 v = None"

text \<open>Optional chaining: \<^verbatim>\<open>x?.k\<close> and \<^verbatim>\<open>x?.[0]\<close> on a possibly undefined \<open>x\<close>.\<close>

fun opt_prop :: "json option \<Rightarrow> string \<Rightarrow> json option" where
  "opt_prop None k = None"
| "opt_prop (Some JNull) k = None"
| "opt_prop (Some v) k = get_prop v k"

fun opt_index0 :: "json option \<Rightarrow> json option" where
  "opt_index0 None = None"
| "opt_index0 (Some JNull) = None"
| "opt_index0 (Some v) = index0 v"

text \<open>\<^verbatim>\<open>x || d\<close>: the left operand when it is truthy, the default otherwise.\<close>

fun or_default :: "json option \<Rightarrow> json \<Rightarrow> json" where
  "or_default None d = d"
| "or_default (Some v) d = (if truthy v then v else d)"

section \<open>Document analyzer: \<^verbatim>\<open>processAnalysis\<close>\<close>

text \<open>
  \<^verbatim>\<open>processAnalysis(analysis)\<close> builds a fresh object literal. Every field is read as
  \<^verbatim>\<open>analysis.group?.field || default\<close>; the first read \<^verbatim>\<open>analysis.group\<close> is a plain
  one, so it throws a TypeError when \<open>analysis\<close> itself is \<^verbatim>\<open>null\<close> (\<open>None\<close> below).
\<close>

definition Not_specified :: json where
  "Not_specified = JStr ''Not specified''"

definition default_confidence :: json where
  "default_confidence = JNum False 5 (- 1)"

definition processAnalysis :: "json \<Rightarrow> json option" where
  "processAnalysis analysis =
     (if analysis = JNull then None
      else
        let crm = get_prop analysis ''criticalRequirementsMatrix'';
            ec = get_prop analysis ''evaluationCriteria'';
            si = get_prop analysis ''strategicIntelligence'';
            wt = get_prop analysis ''winThemes''
        in Some (JObj
          [(''criticalRequirementsMatrix'', JObj
              [(''mandatory'', or_default (opt_prop crm ''mandatory'') (JArr [])),
               (''desired'', or_default (opt_prop crm ''desired'') (JArr [])),
               (''optional'', or_default (opt_prop crm ''optional'') (JArr [])),
               (''hidden'', or_default (opt_prop crm ''hidden'') (JArr []))]),
           (''evaluationCriteria'', JObj
              [(''scoringMethodology'',
                  or_default (opt_prop ec ''scoringMethodology'') Not_specified),
               (''criteria'', or_default (opt_prop ec ''criteria'') (JArr [])),
               (''budgetIndicators'',
                  or_default (opt_prop ec ''budgetIndicators'') Not_specified),
               (''riskFactors'', or_default (opt_prop ec ''riskFactors'') (JArr []))]),
           (''strategicIntelligence'', JObj
              [(''incumbentAdvantages'',
                  or_default (opt_prop si ''incumbentAdvantages'') Not_specified),
               (''politicalLandscape'',
                  or_default (opt_prop si ''politicalLandscape'') Not_specified),
               (''timelinePressures'',
                  or_default (opt_prop si ''timelinePressures'') Not_specified),
               (''competitiveOpportunities'',
                  or_default (opt_prop si ''competitiveOpportunities'') Not_specified),
               (''confidence'', or_default (opt_prop si ''confidence'') default_confidence)]),
           (''winThemes'', JObj
              [(''primaryValueDrivers'',
                  or_default (opt_prop wt ''primaryValueDrivers'') (JArr [])),
               (''painPoints'', or_default (opt_prop wt ''painPoints'') (JArr [])),
               (''keyDifferentiators'',
                  or_default (opt_prop wt ''keyDifferentiators'') (JArr [])),
               (''requiredProofPoints'',
                  or_default (opt_prop wt ''requiredProofPoints'') (JArr [])),
               (''confidence'', or_default (opt_prop wt ''confidence'') default_confidence)]),
           (''redFlags'', or_default (get_prop analysis ''redFlags'') (JArr [])),
           (''deadlines'', or_default (get_prop analysis ''deadlines'') (JArr [])),
           (''stakeholders'', or_default (get_prop analysis ''stakeholders'') (JArr []))]))"

text \<open>
  The shape of \<^verbatim>\<open>DocumentAnalysis\<close>: the fields of each group, by the kind of default
  they take. \<open>present r g k\<close> says that \<open>r.g.k\<close> is there; \<open>filled a r g k d\<close> says
  that \<open>r.g.k\<close> is the default \<open>d\<close> whenever the input \<open>a\<close> has no \<open>a.g.k\<close>.
\<close>

definition groups :: "(string \<times> (string \<times> json) list) list" where
  "groups =
     [(''criticalRequirementsMatrix'',
         [(''mandatory'', JArr []), (''desired'', JArr []), (''optional'', JArr []),
          (''hidden'', JArr [])]),
      (''evaluationCriteria'',
         [(''scoringMethodology'', Not_specified), (''criteria'', JArr []),
          (''budgetIndicators'', Not_specified), (''riskFactors'', JArr [])]),
      (''strategicIntelligence'',
         [(''incumbentAdvantages'', Not_specified), (''politicalLandscape'', Not_specified),
          (''timelinePressures'', Not_specified),
          (''competitiveOpportunities'', Not_specified), (''confidence'', default_confidence)]),
      (''winThemes'',
         [(''primaryValueDrivers'', JArr []), (''painPoints'', JArr []),
          (''keyDifferentiators'', JArr []), (''requiredProofPoints'', JArr []),
          (''confidence'', default_confidence)])]"

definition top_lists :: "string list" where
  "top_lists = [''redFlags'', ''deadlines'', ''stakeholders'']"

definition present :: "json \<Rightarrow> string \<Rightarrow> string \<Rightarrow> bool" where
  "present r g k = (opt_prop (get_prop r g) k \<noteq> None)"

definition filled :: "json \<Rightarrow> json \<Rightarrow> string \<Rightarrow> string \<Rightarrow> json \<Rightarrow> bool" where
  "filled a r g k d =
     (opt_prop (get_prop a g) k = None \<longrightarrow> opt_prop (get_prop r g) k = Some d)"

definition structurally_total :: "json \<Rightarrow> json \<Rightarrow> bool" where
  "structurally_total a r =
     ((\<forall>(g, fields) \<in> set groups. \<forall>(k, d) \<in> set fields. present r g k \<and> filled a r g k d)
      \<and> (\<forall>k \<in> set top_lists.
            get_prop r k \<noteq> None \<and> (get_prop a k = None \<longrightarrow> get_prop r k = Some (JArr []))))"


section \<open>Strings\<close>

text \<open>
  \<open>find_first pat s\<close> cuts \<open>s\<close> at the first occurrence of \<open>pat\<close> (the text before
  it and the text after it); \<open>str_includes pat s\<close> is \<^verbatim>\<open>s.includes(pat)\<close>.
\<close>

fun find_first :: "string \<Rightarrow> string \<Rightarrow> (string \<times> string) option" where
  "find_first pat [] = (if pat = [] then Some ([], []) else None)"
| "find_first pat (c # cs) =
     (if prefix pat (c # cs) then Some ([], drop (length pat) (c # cs))
      else map_option (\<lambda>(b, a). (c # b, a)) (find_first pat cs))"

definition str_includes :: "string \<Rightarrow> string \<Rightarrow> bool" where
  "str_includes pat s = (find_first pat s \<noteq> None)"

text \<open>
  \<^verbatim>\<open>s.replace(pat, rep)\<close> with a string pattern replaces the first occurrence only. In
  the replacement text \<^verbatim>\<open>$$\<close> stands for a dollar sign, \<^verbatim>\<open>$&\<close> for the matched text,
  \<^verbatim>\<open>$`\<close> for the text before the match and \<^verbatim>\<open>$'\<close> for the text after it; a string
  pattern has no capture groups, so every other use of \<^verbatim>\<open>$\<close> is literal.
\<close>

fun expand_replacement :: "string \<Rightarrow> string \<Rightarrow> string \<Rightarrow> string \<Rightarrow> string" where
  "expand_replacement m b a (c # d # r) =
     (if c = CHR ''$'' \<and> d = CHR ''$'' then CHR ''$'' # expand_replacement m b a r
      else if c = CHR ''$'' \<and> d = CHR ''&'' then m @ expand_replacement m b a r
      else if c = CHR ''$'' \<and> d = CHR 0x60 then b @ expand_replacement m b a r
      else if c = CHR ''$'' \<and> d = CHR 0x27 then a @ expand_replacement m b a r
      else c # expand_replacement m b a (d # r))"
| "expand_replacement m b a r = r"

definition replace :: "string \<Rightarrow> string \<Rightarrow> string \<Rightarrow> string" where
  "replace s pat rep =
     (case find_first pat s of
        None \<Rightarrow> s
      | Some (b, a) \<Rightarrow> b @ expand_replacement pat b a rep @ a)"

text \<open>\<^verbatim>\<open>xs.join(sep)\<close> on an array of strings.\<close>

fun join :: "string \<Rightarrow> string list \<Rightarrow> string" where
  "join sep [] = []"
| "join sep [x] = x"
| "join sep (x # y # ys) = x @ sep @ join sep (y # ys)"

text \<open>
  \<^verbatim>\<open>s.trim()\<close> strips white space and line terminators at both ends; below U+0100
  these are the code units 9 to 13, 32 and 160.
\<close>

definition is_space :: "char \<Rightarrow> bool" where
  "is_space c = (of_char c \<in> {9, 10, 11, 12, 13, 32, 160 :: nat})"

definition trim :: "string \<Rightarrow> string" where
  "trim s = rev (dropWhile is_space (rev (dropWhile is_space s)))"

text \<open>The decimal digits of a number, as a template literal prints it.\<close>

definition digit_char :: "nat \<Rightarrow> char" where
  "digit_char d = ''0123456789'' ! d"

fun digits :: "nat \<Rightarrow> string" where
  "digits n =
     (if n < 10 then [digit_char n] else digits (n div 10) @ [digit_char (n mod 10)])"

declare digits.simps [simp del]

section \<open>Prompt builder\<close>

record GenerationContext =
  rfpContent :: "string option"
  companyProfile :: "string option"
  requirements :: "string list option"
  constraints :: "string list option"
  targetAudience :: "string option"

record SectionTemplate =
  id' :: string
  name :: string
  description :: string
  promptTemplate :: string
  maxTokens :: "nat option"

text \<open>
  An optional string is truthy when it is present and not empty; an optional array passes
  \<^verbatim>\<open>xs && xs.length > 0\<close> when it is present and not empty.
\<close>

fun given :: "'a list option \<Rightarrow> 'a list" where
  "given None = []"
| "given (Some xs) = xs"

text \<open>
  \<^verbatim>\<open>buildPrompt(sectionType, context, template)\<close>. The excerpt of the company documents
  comes from \<^verbatim>\<open>companyDocuments.getRelevantContentForRFP\<close>, a module outside these
  sources: it is the parameter \<open>relevant\<close>.
\<close>

definition buildPrompt ::
  "(string \<Rightarrow> string \<Rightarrow> string) \<Rightarrow> string \<Rightarrow> GenerationContext \<Rightarrow> SectionTemplate \<Rightarrow> string"
where
  "buildPrompt relevant sectionType context template =
     (let basePrompt = promptTemplate template;
          prompt0 = replace (replace basePrompt ''{sectionType}'' sectionType)
                      ''{templateName}'' (name template);
          prompt1 = (if given (rfpContent context) \<noteq> []
                     then prompt0 @ ''\<newline>\<newline>RFP Content:\<newline>'' @ given (rfpContent context)
                     else prompt0);
          prompt2 = (if given (companyProfile context) \<noteq> []
                     then prompt1 @ ''\<newline>\<newline>Company Profile:\<newline>''
                            @ given (companyProfile context)
                     else prompt1);
          prompt3 = (if given (requirements context) \<noteq> []
                     then prompt2 @ ''\<newline>\<newline>Key Requirements:\<newline>''
                            @ join ''\<newline>'' (map (\<lambda>req. ''- '' @ req) (given (requirements context)))
                     else prompt2);
          prompt4 = (if given (constraints context) \<noteq> []
                     then prompt3 @ ''\<newline>\<newline>Constraints:\<newline>''
                            @ join ''\<newline>''
                                (map (\<lambda>constraint. ''- '' @ constraint) (given (constraints context)))
                     else prompt3);
          prompt5 = (if given (targetAudience context) \<noteq> []
                     then prompt4 @ ''\<newline>\<newline>Target Audience:\<newline>''
                            @ given (targetAudience context)
                     else prompt4)
      in if given (rfpContent context) \<noteq> []
         then (let relevantContent = relevant (given (rfpContent context)) sectionType
               in if relevantContent \<noteq> []
                  then prompt5 @ ''\<newline>\<newline>Relevant Company Information:\<newline>'' @ relevantContent
                  else prompt5)
         else prompt5)"

text \<open>The predefined templates of \<^verbatim>\<open>getSectionTemplates()\<close>, by key.\<close>

definition template_executive_summary :: SectionTemplate where
  \<open>template_executive_summary =
     \<lparr>id' = ''executive-summary'',
      name = ''Executive Summary'',
      description = ''High-level overview of the proposed solution'',
      promptTemplate =
        ''Create a compelling executive summary for the {sectionType} section of an RFP response. \<newline>'' @
        ''        This should be a concise, high-level overview that captures the key value propositions and differentiators.\<newline>'' @
        ''        Focus on business outcomes and strategic benefits. Leverage the critical requirements matrix and win themes\<newline>'' @
        ''        to demonstrate clear understanding of the customer's needs and your strategic positioning.'',
      maxTokens = Some 800\<rparr>\<close>

definition template_company_overview :: SectionTemplate where
  \<open>template_company_overview =
     \<lparr>id' = ''company-overview'',
      name = ''Company Overview'',
      description = ''Introduction to the company and its capabilities'',
      promptTemplate =
        ''Write a professional company overview section that establishes credibility and expertise.\<newline>'' @
        ''        Highlight relevant experience, certifications, and success stories that align with the RFP requirements.\<newline>'' @
        ''        Address the strategic intelligence insights and demonstrate how your company's strengths position you\<newline>'' @
        ''        to overcome incumbent advantages and competitive challenges.'',
      maxTokens = Some 600\<rparr>\<close>

definition template_technical_approach :: SectionTemplate where
  \<open>template_technical_approach =
     \<lparr>id' = ''technical-approach'',
      name = ''Technical Approach'',
      description = ''Detailed technical methodology and solution design'',
      promptTemplate =
        ''Develop a comprehensive technical approach section that demonstrates deep understanding of the requirements.\<newline>'' @
        ''        Include methodology, architecture considerations, implementation strategy, and technical innovations.\<newline>'' @
        ''        Show how your approach addresses the specific challenges outlined in the RFP and leverages the evaluation criteria\<newline>'' @
        ''        to maximize scoring potential. Address any red flags identified in the analysis with mitigation strategies.'',
      maxTokens = Some 1200\<rparr>\<close>

definition template_project_timeline :: SectionTemplate where
  \<open>template_project_timeline =
     \<lparr>id' = ''project-timeline'',
      name = ''Project Timeline'',
      description = ''Detailed project schedule and milestones'',
      promptTemplate =
        ''Create a realistic and detailed project timeline with clear milestones and deliverables.\<newline>'' @
        ''        Include phases, key activities, dependencies, and resource allocation considerations.\<newline>'' @
        ''        Demonstrate project management expertise and risk mitigation strategies. Address timeline pressures\<newline>'' @
        ''        identified in the strategic intelligence and ensure alignment with critical deadlines.'',
      maxTokens = Some 800\<rparr>\<close>

definition template_team_structure :: SectionTemplate where
  \<open>template_team_structure =
     \<lparr>id' = ''team-structure'',
      name = ''Team Structure'',
      description = ''Proposed team composition and roles'',
      promptTemplate =
        ''Design an optimal team structure for this project, including key roles, responsibilities, and qualifications.\<newline>'' @
        ''        Highlight team member expertise, relevant experience, and how the team composition ensures project success.\<newline>'' @
        ''        Include organizational structure and reporting relationships. Align team capabilities with stakeholder\<newline>'' @
        ''        priorities and evaluation criteria to maximize scoring potential.'',
      maxTokens = Some 700\<rparr>\<close>

definition template_pricing :: SectionTemplate where
  \<open>template_pricing =
     \<lparr>id' = ''pricing'',
      name = ''Pricing Framework'',
      description = ''Cost structure and pricing strategy'',
      promptTemplate =
        ''Develop a competitive and transparent pricing framework that demonstrates value for money.\<newline>'' @
        ''        Include cost breakdown, payment terms, and value-added services. Leverage budget indicators and price\<newline>'' @
        ''        sensitivity analysis to position pricing strategically. Justify pricing decisions and show ROI for the client.'',
      maxTokens = Some 600\<rparr>\<close>

definition template_references :: SectionTemplate where
  \<open>template_references =
     \<lparr>id' = ''references'',
      name = ''References & Case Studies'',
      description = ''Relevant client references and success stories'',
      promptTemplate =
        ''Create compelling case studies and references that demonstrate relevant experience and successful outcomes.\<newline>'' @
        ''        Include specific metrics, challenges overcome, and client testimonials where appropriate.\<newline>'' @
        ''        Focus on projects similar in scope and complexity to the current RFP. Provide proof points that align\<newline>'' @
        ''        with the required proof points identified in the win themes analysis.'',
      maxTokens = Some 900\<rparr>\<close>

definition template_compliance :: SectionTemplate where
  \<open>template_compliance =
     \<lparr>id' = ''compliance'',
      name = ''Compliance & Certifications'',
      description = ''Regulatory compliance and quality certifications'',
      promptTemplate =
        ''Detail all relevant certifications, compliance standards, and quality assurance processes.\<newline>'' @
        ''        Include specific certifications, audit results, and compliance frameworks that apply to this project.\<newline>'' @
        ''        Demonstrate commitment to quality, security, and regulatory requirements.'',
      maxTokens = Some 500\<rparr>\<close>

definition getSectionTemplates :: "(string \<times> SectionTemplate) list" where
  "getSectionTemplates =
     [(''executive-summary'', template_executive_summary),
      (''company-overview'', template_company_overview),
      (''technical-approach'', template_technical_approach),
      (''project-timeline'', template_project_timeline),
      (''team-structure'', template_team_structure),
      (''pricing'', template_pricing),
      (''references'', template_references),
      (''compliance'', template_compliance)]"


section \<open>\<^verbatim>\<open>JSON.parse\<close>\<close>

text \<open>
  A model of the built-in parser on the grammar of JSON (ECMA-404): white space, the three
  literals, numbers, strings with their escapes, arrays and objects. A \<^verbatim>\<open>\uXXXX\<close>
  escape of a code unit from U+0100 on names a character outside the modelled alphabet and
  is refused here. Arrays and objects nest, so the parser counts its calls down from a
  bound (\<open>Fuel\<close> is the answer of a call that ran out); \<open>Syntax\<close> is a SyntaxError.
\<close>

definition is_json_ws :: "char \<Rightarrow> bool" where
  "is_json_ws c = (c = CHR '' '' \<or> c = CHR 0x09 \<or> c = CHR 0x0A \<or> c = CHR 0x0D)"

definition skip_ws :: "string \<Rightarrow> string" where
  "skip_ws cs = dropWhile is_json_ws cs"

definition is_digit :: "char \<Rightarrow> bool" where
  "is_digit c = (48 \<le> (of_char c :: nat) \<and> (of_char c :: nat) \<le> 57)"

definition number_of :: "string \<Rightarrow> nat" where
  "number_of ds = foldl (\<lambda>n c. 10 * n + (of_char c - 48)) 0 ds"

definition hex_value :: "char \<Rightarrow> nat option" where
  "hex_value c =
     (let n = (of_char c :: nat)
      in if 48 \<le> n \<and> n \<le> 57 then Some (n - 48)
         else if 65 \<le> n \<and> n \<le> 70 then Some (n - 55)
         else if 97 \<le> n \<and> n \<le> 102 then Some (n - 87)
         else None)"

fun hex4 :: "string \<Rightarrow> nat option" where
  "hex4 (a # b # c # d # r) =
     (case (hex_value a, hex_value b, hex_value c, hex_value d) of
        (Some x, Some y, Some z, Some w) \<Rightarrow> Some (((x * 16 + y) * 16 + z) * 16 + w)
      | _ \<Rightarrow> None)"
| "hex4 r = None"

definition escape :: "char \<Rightarrow> char option" where
  "escape e =
     (if e = CHR 0x22 \<or> e = CHR 0x5C \<or> e = CHR ''/'' then Some e
      else if e = CHR ''b'' then Some (CHR 0x08)
      else if e = CHR ''f'' then Some (CHR 0x0C)
      else if e = CHR ''n'' then Some (CHR 0x0A)
      else if e = CHR ''r'' then Some (CHR 0x0D)
      else if e = CHR ''t'' then Some (CHR 0x09)
      else None)"

definition cons_to :: "char \<Rightarrow> (string \<times> string) option \<Rightarrow> (string \<times> string) option" where
  "cons_to c res = map_option (\<lambda>(s, rest). (c # s, rest)) res"

text \<open>The characters of a string after its opening quote, and the text after its closing one.\<close>

fun string_body :: "string \<Rightarrow> (string \<times> string) option" where
  "string_body [] = None"
| "string_body (c # cs) =
     (if c = CHR 0x22 then Some ([], cs)
      else if c = CHR 0x5C then
        (case cs of
           [] \<Rightarrow> None
         | e # r \<Rightarrow>
             if e = CHR ''u'' then
               (case hex4 r of
                  None \<Rightarrow> None
                | Some u \<Rightarrow> if u < 256 then cons_to (char_of u) (string_body (drop 4 r)) else None)
             else
               (case escape e of
                  None \<Rightarrow> None
                | Some x \<Rightarrow> cons_to x (string_body r)))
      else if (of_char c :: nat) < 32 then None
      else cons_to c (string_body cs))"

text \<open>
  A number: an optional minus, an integer part without a leading zero, an optional fraction,
  an optional exponent.
\<close>

definition exponent_part :: "string \<Rightarrow> (int \<times> string) option" where
  "exponent_part cs =
     (case cs of
        [] \<Rightarrow> Some (0, cs)
      | c # r \<Rightarrow>
          if c = CHR ''e'' \<or> c = CHR ''E'' then
            (let (neg, r1) =
                   (case r of
                      [] \<Rightarrow> (False, r)
                    | s # r' \<Rightarrow>
                        if s = CHR ''-'' then (True, r')
                        else if s = CHR ''+'' then (False, r') else (False, r));
                 ds = takeWhile is_digit r1
             in if ds = [] then None
                else Some (if neg then - int (number_of ds) else int (number_of ds),
                           dropWhile is_digit r1))
          else Some (0, cs))"

definition fraction_part :: "string \<Rightarrow> (string \<times> string) option" where
  "fraction_part cs =
     (case cs of
        [] \<Rightarrow> Some ([], cs)
      | c # r \<Rightarrow>
          if c = CHR ''.'' then
            (let ds = takeWhile is_digit r
             in if ds = [] then None else Some (ds, dropWhile is_digit r))
          else Some ([], cs))"

definition parse_number :: "string \<Rightarrow> (json \<times> string) option" where
  "parse_number cs =
     (let (neg, cs1) =
            (case cs of
               [] \<Rightarrow> (False, cs)
             | c # r \<Rightarrow> if c = CHR ''-'' then (True, r) else (False, cs));
          ip = takeWhile is_digit cs1
      in if ip = [] \<or> (1 < length ip \<and> hd ip = CHR ''0'') then None
         else
           (case fraction_part (dropWhile is_digit cs1) of
              None \<Rightarrow> None
            | Some (fp, r2) \<Rightarrow>
                (case exponent_part r2 of
                   None \<Rightarrow> None
                 | Some (ex, r3) \<Rightarrow>
                     Some (JNum neg (number_of (ip @ fp)) (ex - int (length fp)), r3))))"

datatype 'a parsed = Parsed 'a string | Syntax | Fuel

fun after :: "'a parsed \<Rightarrow> ('a \<Rightarrow> string \<Rightarrow> 'b parsed) \<Rightarrow> 'b parsed" where
  "after (Parsed x r) f = f x r"
| "after Syntax f = Syntax"
| "after Fuel f = Fuel"

fun parse_value :: "nat \<Rightarrow> string \<Rightarrow> json parsed"
  and parse_elements :: "nat \<Rightarrow> string \<Rightarrow> json list parsed"
  and parse_members :: "nat \<Rightarrow> string \<Rightarrow> (string \<times> json) list parsed"
where
  "parse_value 0 cs = Fuel"
| "parse_value (Suc n) cs =
     (case skip_ws cs of
        [] \<Rightarrow> Syntax
      | c # r \<Rightarrow>
          if c = CHR ''{'' then
            (case skip_ws r of
               [] \<Rightarrow> Syntax
             | d # r' \<Rightarrow>
                 if d = CHR ''}'' then Parsed (JObj []) r'
                 else after (parse_members n (d # r')) (\<lambda>kvs r''. Parsed (JObj kvs) r''))
          else if c = CHR ''['' then
            (case skip_ws r of
               [] \<Rightarrow> Syntax
             | d # r' \<Rightarrow>
                 if d = CHR '']'' then Parsed (JArr []) r'
                 else after (parse_elements n (d # r')) (\<lambda>vs r''. Parsed (JArr vs) r''))
          else if c = CHR 0x22 then
            (case string_body r of
               None \<Rightarrow> Syntax
             | Some (s, r') \<Rightarrow> Parsed (JStr s) r')
          else if prefix ''true'' (c # r) then Parsed (JBool True) (drop 4 (c # r))
          else if prefix ''false'' (c # r) then Parsed (JBool False) (drop 5 (c # r))
          else if prefix ''null'' (c # r) then Parsed JNull (drop 4 (c # r))
          else
            (case parse_number (c # r) of
               None \<Rightarrow> Syntax
             | Some (v, r') \<Rightarrow> Parsed v r'))"
| "parse_elements 0 cs = Fuel"
| "parse_elements (Suc n) cs =
     after (parse_value n cs) (\<lambda>v r.
       case skip_ws r of
         [] \<Rightarrow> Syntax
       | c # r' \<Rightarrow>
           if c = CHR '']'' then Parsed [v] r'
           else if c = CHR '','' then after (parse_elements n r') (\<lambda>vs r''. Parsed (v # vs) r'')
           else Syntax)"
| "parse_members 0 cs = Fuel"
| "parse_members (Suc n) cs =
     (case skip_ws cs of
        [] \<Rightarrow> Syntax
      | q # r \<Rightarrow>
          if q = CHR 0x22 then
            (case string_body r of
               None \<Rightarrow> Syntax
             | Some (k, r1) \<Rightarrow>
                 (case skip_ws r1 of
                    [] \<Rightarrow> Syntax
                  | c # r2 \<Rightarrow>
                      if c = CHR '':'' then
                        after (parse_value n r2) (\<lambda>v r3.
                          case skip_ws r3 of
                            [] \<Rightarrow> Syntax
                          | d # r4 \<Rightarrow>
                              if d = CHR ''}'' then Parsed [(k, v)] r4
                              else if d = CHR '','' then
                                after (parse_members n r4) (\<lambda>kvs r5. Parsed ((k, v) # kvs) r5)
                              else Syntax)
                      else Syntax))
          else Syntax)"

text \<open>
  \<^verbatim>\<open>JSON.parse(text)\<close>: one value, white space around it, nothing else. \<open>None\<close> is the
  SyntaxError the built-in throws. Twice the length of the text bounds the calls.
\<close>

definition JSON_parse :: "string \<Rightarrow> json option" where
  "JSON_parse text =
     (case parse_value (2 * length text + 1) text of
        Parsed v r \<Rightarrow> if skip_ws r = [] then Some v else None
      | Syntax \<Rightarrow> None
      | Fuel \<Rightarrow> None)"

section \<open>Double arithmetic of the progress estimate\<close>

text \<open>
  \<^verbatim>\<open>Math.min(95, Math.floor((chunkCount / 50) * 100))\<close> runs on IEEE doubles: the
  quotient is rounded to the nearest double (53 significant bits, ties to even), and so is
  its product with 100. A positive double of the normal range is the pair \<open>(m, e)\<close> of its
  value \<open>m * 2^e\<close> with \<open>2^52 \<le> m < 2^53\<close>.
\<close>

fun bits :: "nat \<Rightarrow> nat" where
  "bits n = (if n = 0 then 0 else Suc (bits (n div 2)))"

declare bits.simps [simp del]

definition round_half_even :: "nat \<Rightarrow> nat \<Rightarrow> nat" where
  "round_half_even p q =
     (let k = p div q; r = p mod q
      in if 2 * r < q then k else if q < 2 * r then k + 1
         else if even k then k else k + 1)"

text \<open>The double nearest to \<open>p / q\<close>, for positive \<open>p\<close> and \<open>q\<close>.\<close>

definition to_double :: "nat \<Rightarrow> nat \<Rightarrow> nat \<times> int" where
  "to_double p q =
     (let l = int (bits p) - int (bits q);
          lg = (if (if 0 \<le> l then q * 2 ^ nat l \<le> p else q \<le> p * 2 ^ nat (- l))
                then l else l - 1);
          e = lg - 52;
          m = (if 0 \<le> e then round_half_even p (q * 2 ^ nat e)
               else round_half_even (p * 2 ^ nat (- e)) q)
      in if m = 2 ^ 53 then (2 ^ 52, e + 1) else (m, e))"

definition double_times :: "nat \<times> int \<Rightarrow> nat \<Rightarrow> nat \<times> int" where
  "double_times x k =
     (case x of (m, e) \<Rightarrow>
        if 0 \<le> e then to_double (m * k * 2 ^ nat e) 1 else to_double (m * k) (2 ^ nat (- e)))"

definition double_floor :: "nat \<times> int \<Rightarrow> nat" where
  "double_floor x =
     (case x of (m, e) \<Rightarrow> if 0 \<le> e then m * 2 ^ nat e else m div 2 ^ nat (- e))"

definition progress_estimate :: "nat \<Rightarrow> nat" where
  "progress_estimate chunkCount =
     (if chunkCount = 0 then 0
      else min 95 (double_floor (double_times (to_double chunkCount 50) 100)))"

text \<open>\<^verbatim>\<open>chunkCount++\<close> on a double: past \<open>2^53\<close> adding one changes nothing.\<close>

definition increment :: "nat \<Rightarrow> nat" where
  "increment n = (if n < 2 ^ 53 then n + 1 else n)"


section \<open>Section generator\<close>

text \<open>
  What a call can observe and do. A thrown value is an \<^verbatim>\<open>Error\<close> object with its
  message, or some other value. The callbacks \<^verbatim>\<open>onProgress\<close> and \<^verbatim>\<open>onChunk\<close> are
  taken as given and as returning normally; a call is described by the list of the
  effects it has, in order: the callback invocations, the \<^verbatim>\<open>abort()\<close> of a controller,
  the request handed to \<^verbatim>\<open>fetch\<close>. An \<^verbatim>\<open>AbortController\<close> is named by a number, the
  count of controllers the service created before it. Calls run to their end one after the
  other: what two calls interleaved at their \<^verbatim>\<open>await\<close>s do is not described.
\<close>

datatype thrown = ErrorObject string | OtherValue

datatype 'a outcome = Resolved 'a | Rejected thrown

datatype status = Pending | Generating | Completed | Error

record GenerationProgress =
  sectionId :: string
  status :: status
  progress :: nat
  content :: "string option"
  error :: "string option"

record request =
  prompt :: string
  max_tokens :: nat
  stream :: bool
  signal :: nat

datatype 'p event = Progress 'p | Chunk json | Abort nat | Fetch request

record config =
  enableAIGeneration :: bool
  openai_maxTokens :: nat

record service =
  abortController :: "nat option"
  created :: nat

text \<open>
  The network's side of one call: \<^verbatim>\<open>fetch\<close> rejects, or resolves with a response.
  The body of a streamed response, when there is one, delivers its reads (each already
  decoded by \<^verbatim>\<open>TextDecoder\<close>, which leaves ASCII bytes as they are) and then ends or
  fails.
\<close>

datatype ending = Done | ReadFails thrown

record 'b response =
  ok :: bool
  http_status :: nat
  statusText :: string
  body :: 'b

datatype 'b fetched = FetchFails thrown | Response "'b response"

type_synonym stream_body = "(string list \<times> ending) option"

text \<open>\<^verbatim>\<open>chunk.split('\n')\<close>.\<close>

fun split_lines :: "string \<Rightarrow> string list" where
  "split_lines [] = [[]]"
| "split_lines (c # cs) =
     (if c = CHR 0x0A then [] # split_lines cs
      else (case split_lines cs of
              [] \<Rightarrow> [[c]]
            | l # ls \<Rightarrow> (c # l) # ls))"

text \<open>
  \<^verbatim>\<open>parsed.choices?.[0]?.delta?.content\<close>: the outer \<open>None\<close> is the TypeError of reading
  \<^verbatim>\<open>choices\<close> of \<^verbatim>\<open>null\<close>, the inner one is \<^verbatim>\<open>undefined\<close>.
\<close>

definition delta_content :: "json \<Rightarrow> json option option" where
  "delta_content parsed =
     (if parsed = JNull then None
      else Some (opt_prop (opt_prop (opt_index0 (get_prop parsed ''choices'')) ''delta'')
                   ''content''))"

text \<open>
  \<^verbatim>\<open>accumulatedContent += content\<close> appends a string as it is. Any other truthy value
  is first converted by the language (\<^verbatim>\<open>ToString\<close>: number formatting, array joining,
  the \<^verbatim>\<open>toString\<close> member of an object), which may throw: that conversion is the
  parameter \<open>toStr\<close>, with \<open>None\<close> for a throw.
\<close>

definition text_of :: "(json \<Rightarrow> string option) \<Rightarrow> json \<Rightarrow> string option" where
  "text_of toStr v = (case v of JStr s \<Rightarrow> Some s | _ \<Rightarrow> toStr v)"

text \<open>
  The body of \<^verbatim>\<open>for (const line of lines)\<close> on one line, from the accumulated content
  and the chunk count: the effects, and either the next pair (\<open>Inl\<close>) or the value the
  function returns from inside the loop (\<open>Inr\<close>). The inner \<^verbatim>\<open>try\<close> swallows whatever
  the parsing or the use of the parsed value throws.
\<close>

definition process_line ::
  "(json \<Rightarrow> string option) \<Rightarrow> string \<Rightarrow> string \<times> nat \<Rightarrow> string
     \<Rightarrow> GenerationProgress event list \<times> (string \<times> nat + string)"
where
  "process_line toStr sectionType st line =
     (case st of (accumulatedContent, chunkCount) \<Rightarrow>
        if prefix ''data: '' line then
          (let data = drop 6 line
           in if data = ''[DONE]'' then
                ([Progress \<lparr>sectionId = sectionType, status = Completed, progress = 100,
                            content = Some accumulatedContent, error = None\<rparr>],
                 Inr accumulatedContent)
              else
                (case JSON_parse data of
                   None \<Rightarrow> ([], Inl st)
                 | Some parsed \<Rightarrow>
                     (case delta_content parsed of
                        None \<Rightarrow> ([], Inl st)
                      | Some None \<Rightarrow> ([], Inl st)
                      | Some (Some v) \<Rightarrow>
                          if truthy v then
                            (case text_of toStr v of
                               None \<Rightarrow> ([], Inl st)
                             | Some s \<Rightarrow>
                                 ([Chunk v,
                                   Progress \<lparr>sectionId = sectionType, status = Generating,
                                     progress = progress_estimate (increment chunkCount),
                                     content = Some (accumulatedContent @ s), error = None\<rparr>],
                                  Inl (accumulatedContent @ s, increment chunkCount)))
                          else ([], Inl st))))
        else ([], Inl st))"

fun process_lines ::
  "(json \<Rightarrow> string option) \<Rightarrow> string \<Rightarrow> string \<times> nat \<Rightarrow> string list
     \<Rightarrow> GenerationProgress event list \<times> (string \<times> nat + string)"
where
  "process_lines toStr sectionType st [] = ([], Inl st)"
| "process_lines toStr sectionType st (line # lines) =
     (case process_line toStr sectionType st line of
        (evs, Inr result) \<Rightarrow> (evs, Inr result)
      | (evs, Inl st') \<Rightarrow>
          (case process_lines toStr sectionType st' lines of
             (evs', res) \<Rightarrow> (evs @ evs', res)))"

text \<open>
  The \<^verbatim>\<open>while (true)\<close> loop over the reads: each read is split into lines on its own;
  the end of the stream leaves the loop and returns the accumulated content; a read that
  fails throws.
\<close>

fun read_loop ::
  "(json \<Rightarrow> string option) \<Rightarrow> string \<Rightarrow> string \<times> nat \<Rightarrow> string list \<Rightarrow> ending
     \<Rightarrow> GenerationProgress event list \<times> string outcome"
where
  "read_loop toStr sectionType st [] Done = ([], Resolved (fst st))"
| "read_loop toStr sectionType st [] (ReadFails t) = ([], Rejected t)"
| "read_loop toStr sectionType st (chunk # reads) end =
     (case process_lines toStr sectionType st (split_lines chunk) of
        (evs, Inr result) \<Rightarrow> (evs, Resolved result)
      | (evs, Inl st') \<Rightarrow>
          (case read_loop toStr sectionType st' reads end of
             (evs', res) \<Rightarrow> (evs @ evs', res)))"

text \<open>\<^verbatim>\<open>error instanceof Error ? error.message : 'Unknown error occurred'\<close>.\<close>

definition errorMessage :: "thrown \<Rightarrow> string" where
  "errorMessage t =
     (case t of ErrorObject m \<Rightarrow> m | OtherValue \<Rightarrow> ''Unknown error occurred'')"

text \<open>The statements of the \<^verbatim>\<open>try\<close> block after the first progress event.\<close>

definition stream_response ::
  "(json \<Rightarrow> string option) \<Rightarrow> string \<Rightarrow> stream_body fetched
     \<Rightarrow> GenerationProgress event list \<times> string outcome"
where
  "stream_response toStr sectionType net =
     (case net of
        FetchFails t \<Rightarrow> ([], Rejected t)
      | Response r \<Rightarrow>
          if \<not> ok r then
            ([], Rejected (ErrorObject
                   (''OpenAI API error: '' @ digits (http_status r) @ '' '' @ statusText r)))
          else
            (case body r of
               None \<Rightarrow> ([], Rejected (ErrorObject ''No response body received''))
             | Some (reads, end) \<Rightarrow> read_loop toStr sectionType ([], 0) reads end))"

text \<open>
  \<^verbatim>\<open>generateSection(sectionType, context, template, onProgress, onChunk)\<close> on a service
  in state \<open>s\<close>, against a network that answers \<open>net\<close>: the effects, how the promise
  settles, and the state of the service afterwards.
\<close>

definition generateSection ::
  "(json \<Rightarrow> string option) \<Rightarrow> (string \<Rightarrow> string \<Rightarrow> string) \<Rightarrow> config \<Rightarrow> service
     \<Rightarrow> string \<Rightarrow> GenerationContext \<Rightarrow> SectionTemplate \<Rightarrow> stream_body fetched
     \<Rightarrow> GenerationProgress event list \<times> string outcome \<times> service"
where
  "generateSection toStr relevant cfg s sectionType context template net =
     (if \<not> enableAIGeneration cfg then
        ([], Rejected (ErrorObject ''AI generation is disabled in configuration''), s)
      else
        let cancel = (case abortController s of None \<Rightarrow> [] | Some c \<Rightarrow> [Abort c]);
            controller = created s;
            prompt = buildPrompt relevant sectionType context template;
            maxTokens = (case maxTokens template of
                           None \<Rightarrow> openai_maxTokens cfg
                         | Some n \<Rightarrow> if n = 0 then openai_maxTokens cfg else n);
            started =
              [Progress \<lparr>sectionId = sectionType, status = Generating, progress = 0,
                         content = None, error = None\<rparr>,
               Fetch \<lparr>prompt = prompt, max_tokens = maxTokens, stream = True,
                      signal = controller\<rparr>];
            final = \<lparr>abortController = None, created = Suc controller\<rparr>
        in (case stream_response toStr sectionType net of
              (evs, Resolved text) \<Rightarrow> (cancel @ started @ evs, Resolved text, final)
            | (evs, Rejected t) \<Rightarrow>
                (cancel @ started @ evs
                   @ [Progress \<lparr>sectionId = sectionType, status = Error, progress = 0,
                                content = None, error = Some (errorMessage t)\<rparr>],
                 Rejected t, final)))"

text \<open>\<^verbatim>\<open>cancelGeneration()\<close>.\<close>

definition cancelGeneration :: "service \<Rightarrow> GenerationProgress event list \<times> service" where
  "cancelGeneration s =
     (case abortController s of
        None \<Rightarrow> ([], s)
      | Some c \<Rightarrow> ([Abort c], s\<lparr>abortController := None\<rparr>))"

section \<open>Multi-section orchestrator\<close>






section \<open>Document analyzer\<close>

datatype analysis_status = Idle | Analyzing | AnalysisCompleted | AnalysisError

record AnalysisProgress =
  analysis_status :: analysis_status
  analysis_progress :: nat
  currentStep :: "string option"
  analysis_error :: "string option"

text \<open>\<^verbatim>\<open>buildAnalysisPrompt(documentContent)\<close>: a fixed text around the document.\<close>

definition analysis_prompt_head :: string where
  \<open>analysis_prompt_head =
     ''You are an expert RFP analyst with 20+ years of experience in enterprise software procurement. Your task is to analyze RFP documents with the precision of top consulting firms like McKinsey and Accenture.\<newline>'' @
     ''\<newline>'' @
     ''Extract and structure the following:\<newline>'' @
     ''\<newline>'' @
     ''1. **Critical Requirements Matrix**\<newline>'' @
     ''   - Mandatory requirements (MUST have) with compliance mapping\<newline>'' @
     ''   - Desired requirements (SHOULD have) with weight scores\<newline>'' @
     ''   - Optional requirements (NICE to have)\<newline>'' @
     ''   - Hidden requirements (implied but not stated)\<newline>'' @
     ''\<newline>'' @
     ''2. **Evaluation Criteria Decoder**\<newline>'' @
     ''   - Scoring methodology and weights\<newline>'' @
     ''   - Decision-maker priorities (read between the lines)\<newline>'' @
     ''   - Budget indicators and price sensitivity\<newline>'' @
     ''   - Risk factors and compliance requirements\<newline>'' @
     ''\<newline>'' @
     ''3. **Strategic Intelligence**\<newline>'' @
     ''   - Incumbent vendor advantages (if any)\<newline>'' @
     ''   - Political landscape and stakeholder dynamics\<newline>'' @
     ''   - Timeline pressures and urgency indicators\<newline>'' @
     ''   - Competitive positioning opportunities\<newline>'' @
     ''\<newline>'' @
     ''4. **Win Theme Identification**\<newline>'' @
     ''   - Primary value drivers for this customer\<newline>'' @
     ''   - Pain points to address\<newline>'' @
     ''   - Differentiators that matter most\<newline>'' @
     ''   - Proof points needed\<newline>'' @
     ''\<newline>'' @
     ''5. **Red Flags & Risks**\<newline>'' @
     ''   - Unrealistic requirements\<newline>'' @
     ''   - Conflicting specifications\<newline>'' @
     ''   - Missing information gaps\<newline>'' @
     ''   - Potential deal breakers\<newline>'' @
     ''\<newline>'' @
     ''Document Content:\<newline>''\<close>

definition analysis_prompt_tail :: string where
  \<open>analysis_prompt_tail =
     ''\<newline>'' @
     ''\<newline>'' @
     ''Please respond with a valid JSON object containing these fields with confidence scores for each finding:\<newline>'' @
     ''{\<newline>'' @
     ''  "criticalRequirementsMatrix": {\<newline>'' @
     ''    "mandatory": [\<newline>'' @
     ''      {\<newline>'' @
     ''        "requirement": "requirement description",\<newline>'' @
     ''        "complianceMapping": "how to demonstrate compliance",\<newline>'' @
     ''        "confidence": 0.95\<newline>'' @
     ''      }\<newline>'' @
     ''    ],\<newline>'' @
     ''    "desired": [\<newline>'' @
     ''      {\<newline>'' @
     ''        "requirement": "requirement description",\<newline>'' @
     ''        "weightScore": "percentage or importance level",\<newline>'' @
     ''        "confidence": 0.85\<newline>'' @
     ''      }\<newline>'' @
     ''    ],\<newline>'' @
     ''    "optional": [\<newline>'' @
     ''      {\<newline>'' @
     ''        "requirement": "requirement description",\<newline>'' @
     ''        "confidence": 0.75\<newline>'' @
     ''      }\<newline>'' @
     ''    ],\<newline>'' @
     ''    "hidden": [\<newline>'' @
     ''      {\<newline>'' @
     ''        "requirement": "implied requirement",\<newline>'' @
     ''        "evidence": "why this is implied",\<newline>'' @
     ''        "confidence": 0.70\<newline>'' @
     ''      }\<newline>'' @
     ''    ]\<newline>'' @
     ''  },\<newline>'' @
     ''  "evaluationCriteria": {\<newline>'' @
     ''    "scoringMethodology": "description of how evaluation will be conducted",\<newline>'' @
     ''    "criteria": [\<newline>'' @
     ''      {\<newline>'' @
     ''        "criterion": "criteria name",\<newline>'' @
     ''        "weight": "percentage",\<newline>'' @
     ''        "priority": "high/medium/low",\<newline>'' @
     ''        "confidence": 0.90\<newline>'' @
     ''      }\<newline>'' @
     ''    ],\<newline>'' @
     ''    "budgetIndicators": "budget range and price sensitivity analysis",\<newline>'' @
     ''    "riskFactors": [\<newline>'' @
     ''      {\<newline>'' @
     ''        "factor": "risk description",\<newline>'' @
     ''        "severity": "High|Medium|Low",\<newline>'' @
     ''        "confidence": 0.80\<newline>'' @
     ''      }\<newline>'' @
     ''    ]\<newline>'' @
     ''  },\<newline>'' @
     ''  "strategicIntelligence": {\<newline>'' @
     ''    "incumbentAdvantages": "analysis of current vendor advantages",\<newline>'' @
     ''    "politicalLandscape": "stakeholder dynamics and decision-making process",\<newline>'' @
     ''    "timelinePressures": "urgency indicators and timeline analysis",\<newline>'' @
     ''    "competitiveOpportunities": "positioning opportunities for new vendors",\<newline>'' @
     ''    "confidence": 0.75\<newline>'' @
     ''  },\<newline>'' @
     ''  "winThemes": {\<newline>'' @
     ''    "primaryValueDrivers": ["driver1", "driver2"],\<newline>'' @
     ''    "painPoints": ["pain point 1", "pain point 2"],\<newline>'' @
     ''    "keyDifferentiators": ["differentiator 1", "differentiator 2"],\<newline>'' @
     ''    "requiredProofPoints": ["proof point 1", "proof point 2"],\<newline>'' @
     ''    "confidence": 0.85\<newline>'' @
     ''  },\<newline>'' @
     ''  "redFlags": [\<newline>'' @
     ''    {\<newline>'' @
     ''      "flag": "red flag description",\<newline>'' @
     ''      "severity": "High|Medium|Low",\<newline>'' @
     ''      "impact": "potential impact on proposal",\<newline>'' @
     ''      "confidence": 0.90\<newline>'' @
     ''    }\<newline>'' @
     ''  ],\<newline>'' @
     ''  "deadlines": [\<newline>'' @
     ''    {\<newline>'' @
     ''      "task": "task description",\<newline>'' @
     ''      "date": "YYYY-MM-DD",\<newline>'' @
     ''      "daysRemaining": number,\<newline>'' @
     ''      "urgency": "High|Medium|Low"\<newline>'' @
     ''    }\<newline>'' @
     ''  ],\<newline>'' @
     ''  "stakeholders": [\<newline>'' @
     ''    {\<newline>'' @
     ''      "name": "person name",\<newline>'' @
     ''      "role": "job title",\<newline>'' @
     ''      "department": "department name",\<newline>'' @
     ''      "influence": "High|Medium|Low",\<newline>'' @
     ''      "priorities": ["priority1", "priority2"]\<newline>'' @
     ''    }\<newline>'' @
     ''  ]\<newline>'' @
     ''}\<newline>'' @
     ''\<newline>'' @
     ''Ensure all dates are in YYYY-MM-DD format and calculate days remaining from today's date. Provide confidence scores (0.0-1.0) for each finding based on the clarity and specificity of the information in the document.''\<close>

definition buildAnalysisPrompt :: "string \<Rightarrow> string" where
  "buildAnalysisPrompt documentContent =
     analysis_prompt_head @ documentContent @ analysis_prompt_tail"

text \<open>
  \<^verbatim>\<open>content.match(/\{[\s\S]*\}/)\<close>: the match starts at the first opening brace and,
  the star being greedy over every character, ends at the last closing brace after it;
  there is no match when no closing brace follows an opening one.
\<close>

definition upto_last :: "char \<Rightarrow> string \<Rightarrow> string" where
  "upto_last c s = rev (dropWhile (\<lambda>x. x \<noteq> c) (rev s))"

definition jsonMatch :: "string \<Rightarrow> string option" where
  "jsonMatch reply =
     (case dropWhile (\<lambda>x. x \<noteq> CHR ''{'') reply of
        [] \<Rightarrow> None
      | b # r \<Rightarrow> if upto_last (CHR ''}'') r = [] then None
                 else Some (b # upto_last (CHR ''}'') r))"

text \<open>
  The errors the language itself raises inside \<^verbatim>\<open>analyzeDocument\<close>: reading a property
  of \<^verbatim>\<open>null\<close>, calling \<^verbatim>\<open>content.match\<close> when \<open>content\<close> is not a string, and
  \<^verbatim>\<open>JSON.parse\<close> refusing a text. Their messages are the engine's: the parameter
  \<open>message\<close> gives them.
\<close>

datatype native = NullRead | NotCallable | BadJSON string

datatype json_body = JsonFails thrown | JsonValue json

text \<open>The progress milestones of \<^verbatim>\<open>analyzeDocument\<close>.\<close>

definition analyzing :: "nat \<Rightarrow> string \<Rightarrow> AnalysisProgress" where
  "analyzing n step =
     \<lparr>analysis_status = Analyzing, analysis_progress = n, currentStep = Some step,
      analysis_error = None\<rparr>"

definition analysis_complete :: AnalysisProgress where
  "analysis_complete =
     \<lparr>analysis_status = AnalysisCompleted, analysis_progress = 100,
      currentStep = Some ''Analysis complete'', analysis_error = None\<rparr>"

text \<open>
  \<^verbatim>\<open>data.choices?.[0]?.message?.content\<close>: the outer \<open>None\<close> is the TypeError of
  reading \<^verbatim>\<open>choices\<close> of \<^verbatim>\<open>null\<close>, the inner one is \<^verbatim>\<open>undefined\<close>.
\<close>

definition message_content :: "json \<Rightarrow> json option option" where
  "message_content data =
     (if data = JNull then None
      else Some (opt_prop (opt_prop (opt_index0 (get_prop data ''choices'')) ''message'')
                   ''content''))"

text \<open>
  From the reply text to the result: the match, the milestone at 90, \<^verbatim>\<open>JSON.parse\<close> of
  the matched text, \<^verbatim>\<open>processAnalysis\<close>, the milestone at 100.
\<close>

definition interpret_reply ::
  "(native \<Rightarrow> string) \<Rightarrow> string \<Rightarrow> AnalysisProgress event list \<times> json outcome"
where
  "interpret_reply message reply =
     (case jsonMatch reply of
        None \<Rightarrow> ([], Rejected (ErrorObject ''Invalid JSON response from analysis''))
      | Some m \<Rightarrow>
          (case JSON_parse m of
             None \<Rightarrow>
               ([Progress (analyzing 90 ''Finalizing results...'')],
                Rejected (ErrorObject (message (BadJSON m))))
           | Some analysis \<Rightarrow>
               (case processAnalysis analysis of
                  None \<Rightarrow>
                    ([Progress (analyzing 90 ''Finalizing results...'')],
                     Rejected (ErrorObject (message NullRead)))
                | Some processedAnalysis \<Rightarrow>
                    ([Progress (analyzing 90 ''Finalizing results...''),
                      Progress analysis_complete],
                     Resolved processedAnalysis))))"

text \<open>
  From the parsed body of the response to the result: \<^verbatim>\<open>!content\<close> rejects every
  falsy content; a truthy content that is not a string has no callable \<^verbatim>\<open>match\<close>.
\<close>

definition interpret_data ::
  "(native \<Rightarrow> string) \<Rightarrow> json \<Rightarrow> AnalysisProgress event list \<times> json outcome"
where
  "interpret_data message data =
     (case message_content data of
        None \<Rightarrow> ([], Rejected (ErrorObject (message NullRead)))
      | Some None \<Rightarrow>
          ([], Rejected (ErrorObject ''No analysis content received from OpenAI''))
      | Some (Some content') \<Rightarrow>
          if \<not> truthy content' then
            ([], Rejected (ErrorObject ''No analysis content received from OpenAI''))
          else
            (case content' of
               JStr reply \<Rightarrow> interpret_reply message reply
             | _ \<Rightarrow> ([], Rejected (ErrorObject (message NotCallable)))))"

text \<open>
  The \<^verbatim>\<open>try\<close> block of \<^verbatim>\<open>analyzeDocument\<close> after the request: \<open>body r\<close> is how
  \<^verbatim>\<open>response.json()\<close> settles.
\<close>

definition read_analysis ::
  "(native \<Rightarrow> string) \<Rightarrow> json_body fetched \<Rightarrow> AnalysisProgress event list \<times> json outcome"
where
  "read_analysis message net =
     (case net of
        FetchFails t \<Rightarrow> ([], Rejected t)
      | Response r \<Rightarrow>
          if \<not> ok r then
            ([], Rejected (ErrorObject
                   (''OpenAI API error: '' @ digits (http_status r) @ '' '' @ statusText r)))
          else
            (case body r of
               JsonFails t \<Rightarrow>
                 ([Progress (analyzing 50 ''Processing analysis results...'')], Rejected t)
             | JsonValue data \<Rightarrow>
                 (case interpret_data message data of
                    (evs, res) \<Rightarrow>
                      (Progress (analyzing 50 ''Processing analysis results...'') # evs, res))))"

text \<open>
  \<^verbatim>\<open>analyzeDocument(documentContent, onProgress)\<close>. There is no \<^verbatim>\<open>finally\<close> here:
  the controller of the call stays in \<^verbatim>\<open>this.abortController\<close>.
\<close>

definition analyzeDocument ::
  "(native \<Rightarrow> string) \<Rightarrow> config \<Rightarrow> service \<Rightarrow> string \<Rightarrow> json_body fetched
     \<Rightarrow> AnalysisProgress event list \<times> json outcome \<times> service"
where
  "analyzeDocument message cfg s documentContent net =
     (if \<not> enableAIGeneration cfg then
        ([], Rejected (ErrorObject ''AI generation is disabled in configuration''), s)
      else
        let cancel = (case abortController s of None \<Rightarrow> [] | Some c \<Rightarrow> [Abort c]);
            controller = created s;
            started =
              [Progress (analyzing 0 ''Preparing analysis...''),
               Fetch \<lparr>prompt = buildAnalysisPrompt documentContent,
                      max_tokens = openai_maxTokens cfg, stream = False,
                      signal = controller\<rparr>];
            final = \<lparr>abortController = Some controller, created = Suc controller\<rparr>
        in (case read_analysis message net of
              (evs, Resolved processedAnalysis) \<Rightarrow>
                (cancel @ started @ evs, Resolved processedAnalysis, final)
            | (evs, Rejected t) \<Rightarrow>
                (cancel @ started @ evs
                   @ [Progress \<lparr>analysis_status = AnalysisError, analysis_progress = 0,
                                currentStep = None,
                                analysis_error = Some (errorMessage t)\<rparr>],
                 Rejected (ErrorObject (''Document analysis failed: '' @ errorMessage t)),
                 final)))"

text \<open>\<^verbatim>\<open>cancelAnalysis()\<close> aborts the controller and keeps it.\<close>

definition cancelAnalysis :: "service \<Rightarrow> AnalysisProgress event list \<times> service" where
  "cancelAnalysis s =
     (case abortController s of
        None \<Rightarrow> ([], s)
      | Some c \<Rightarrow> ([Abort c], s))"

text \<open>\<^verbatim>\<open>validateDocumentContent(content)\<close>.\<close>

record validation =
  isValid :: bool
  validation_error :: "string option"

definition validateDocumentContent :: "string \<Rightarrow> validation" where
  "validateDocumentContent content' =
     (if content' = [] \<or> length (trim content') = 0 then
        \<lparr>isValid = False, validation_error = Some ''Document content is empty''\<rparr>
      else if length (trim content') < 50 then
        \<lparr>isValid = False,
         validation_error = Some ''Document content is too short for meaningful analysis''\<rparr>
      else \<lparr>isValid = True, validation_error = None\<rparr>)"


section \<open>Traces and sample inputs\<close>

text \<open>The parts of a trace: the chunks handed to \<^verbatim>\<open>onChunk\<close>, the progress events, the requests.\<close>

fun chunks :: "'p event list \<Rightarrow> json list" where
  "chunks [] = []"
| "chunks (Chunk v # evs) = v # chunks evs"
| "chunks (e # evs) = chunks evs"

fun progress_events :: "'p event list \<Rightarrow> 'p list" where
  "progress_events [] = []"
| "progress_events (Progress p # evs) = p # progress_events evs"
| "progress_events (e # evs) = progress_events evs"

fun requests :: "'p event list \<Rightarrow> request list" where
  "requests [] = []"
| "requests (Fetch q # evs) = q # requests evs"
| "requests (e # evs) = requests evs"

text \<open>The two kinds of progress event of the read loop, and the one of the \<^verbatim>\<open>catch\<close>.\<close>

definition generating :: "string \<Rightarrow> nat \<Rightarrow> string \<Rightarrow> GenerationProgress" where
  "generating sectionType n acc =
     \<lparr>sectionId = sectionType, status = Generating, progress = progress_estimate n,
      content = Some acc, error = None\<rparr>"

definition completed :: "string \<Rightarrow> string \<Rightarrow> GenerationProgress" where
  "completed sectionType acc =
     \<lparr>sectionId = sectionType, status = Completed, progress = 100,
      content = Some acc, error = None\<rparr>"

definition failed :: "string \<Rightarrow> string \<Rightarrow> GenerationProgress" where
  "failed sectionType msg =
     \<lparr>sectionId = sectionType, status = Error, progress = 0,
      content = None, error = Some msg\<rparr>"

definition analysis_failed :: "string \<Rightarrow> AnalysisProgress" where
  "analysis_failed msg =
     \<lparr>analysis_status = AnalysisError, analysis_progress = 0,
      currentStep = None, analysis_error = Some msg\<rparr>"

text \<open>
  What one line contributes when it is not the sentinel: the content value of its payload
  and the text appended for it, or nothing.
\<close>

definition line_delta :: "(json \<Rightarrow> string option) \<Rightarrow> string \<Rightarrow> (json \<times> string) option" where
  "line_delta toStr line =
     (if prefix ''data: '' line then
        (case JSON_parse (drop 6 line) of
           None \<Rightarrow> None
         | Some parsed \<Rightarrow>
             (case delta_content parsed of
                Some (Some v) \<Rightarrow>
                  if truthy v then map_option (\<lambda>s. (v, s)) (text_of toStr v) else None
              | _ \<Rightarrow> None))
      else None)"

definition deltas :: "(json \<Rightarrow> string option) \<Rightarrow> string list \<Rightarrow> (json \<times> string) list" where
  "deltas toStr lines = List.map_filter (line_delta toStr) lines"

text \<open>The events of a run of deltas from a state of the loop, and the state after them.\<close>

fun emit ::
  "string \<Rightarrow> string \<times> nat \<Rightarrow> (json \<times> string) list \<Rightarrow> GenerationProgress event list"
where
  "emit sid st [] = []"
| "emit sid st ((v, s) # ds) =
     Chunk v # Progress (generating sid (increment (snd st)) (fst st @ s))
       # emit sid (fst st @ s, increment (snd st)) ds"

fun advance :: "string \<times> nat \<Rightarrow> (json \<times> string) list \<Rightarrow> string \<times> nat" where
  "advance st [] = st"
| "advance st ((v, s) # ds) = advance (fst st @ s, increment (snd st)) ds"

definition DONE :: string where
  "DONE = ''data: [DONE]''"

definition at_end :: "string \<times> nat \<Rightarrow> ending \<Rightarrow> string outcome" where
  "at_end st e = (case e of Done \<Rightarrow> Resolved (fst st) | ReadFails t \<Rightarrow> Rejected t)"

definition run_lines ::
  "(json \<Rightarrow> string option) \<Rightarrow> string \<Rightarrow> string \<times> nat \<Rightarrow> string list \<Rightarrow> ending
     \<Rightarrow> GenerationProgress event list \<times> string outcome"
where
  "run_lines toStr sid st ls e =
     (case process_lines toStr sid st ls of
        (evs, Inr r) \<Rightarrow> (evs, Resolved r)
      | (evs, Inl st') \<Rightarrow> (evs, at_end st' e))"

text \<open>The text a trace has delivered: what each chunk appended.\<close>

definition delivered :: "(json \<Rightarrow> string option) \<Rightarrow> 'p event list \<Rightarrow> string" where
  "delivered toStr evs =
     concat (map (\<lambda>v. case text_of toStr v of None \<Rightarrow> [] | Some s \<Rightarrow> s) (chunks evs))"

text \<open>
  A frame of the stream is a line \<^verbatim>\<open>data: payload\<close> and its newline. No frame is split
  between two reads when every read that is not empty ends with a newline.
\<close>

definition data_line :: "string \<Rightarrow> string" where
  "data_line payload = ''data: '' @ payload"

definition sse_frame :: "string \<Rightarrow> string" where
  "sse_frame payload = data_line payload @ ''\<newline>''"

definition delta_payload :: "string \<Rightarrow> string" where
  \<open>delta_payload d = ''{"choices":[{"delta":{"content":"'' @ d @ ''"}}]}''\<close>

definition whole_lines :: "string list \<Rightarrow> bool" where
  "whole_lines reads = (\<forall>r \<in> set reads. r = [] \<or> last r = CHR 0x0A)"

definition carries :: "string \<Rightarrow> string \<Rightarrow> bool" where
  "carries payload d =
     (CHR 0x0A \<notin> set payload \<and> d \<noteq> []
      \<and> (\<exists>parsed. JSON_parse payload = Some parsed
            \<and> delta_content parsed = Some (Some (JStr d))))"


definition streamed :: "string list \<Rightarrow> ending \<Rightarrow> stream_body fetched" where
  "streamed reads e =
     Response \<lparr>ok = True, http_status = 200, statusText = ''OK'', body = Some (reads, e)\<rparr>"

definition replied :: "string \<Rightarrow> json_body fetched" where
  "replied reply =
     Response \<lparr>ok = True, http_status = 200, statusText = ''OK'',
       body = JsonValue (JObj [(''choices'',
                JArr [JObj [(''message'', JObj [(''content'', JStr reply)])]])])\<rparr>"

definition refused :: "nat \<Rightarrow> string \<Rightarrow> 'b \<Rightarrow> 'b fetched" where
  "refused code reason b =
     Response \<lparr>ok = False, http_status = code, statusText = reason, body = b\<rparr>"

definition enabled_config :: config where
  "enabled_config = \<lparr>enableAIGeneration = True, openai_maxTokens = 2000\<rparr>"

definition disabled_config :: config where
  "disabled_config = \<lparr>enableAIGeneration = False, openai_maxTokens = 2000\<rparr>"

definition fresh_service :: service where
  "fresh_service = \<lparr>abortController = None, created = 0\<rparr>"

definition no_context :: GenerationContext where
  "no_context =
     \<lparr>rfpContent = None, companyProfile = None, requirements = None, constraints = None,
      targetAudience = None\<rparr>"

definition no_excerpt :: "string \<Rightarrow> string \<Rightarrow> string" where
  "no_excerpt rfp sectionType = []"

definition no_conversion :: "json \<Rightarrow> string option" where
  "no_conversion v = None"

definition engine_message :: "native \<Rightarrow> string" where
  "engine_message n =
     (case n of
        NullRead \<Rightarrow> ''Cannot read properties of null''
      | NotCallable \<Rightarrow> ''content.match is not a function''
      | BadJSON text \<Rightarrow> ''Unexpected token in JSON'')"





text \<open>The two placeholder tokens, and whether a context itself contains a token.\<close>

definition placeholders :: "string list" where
  "placeholders = [''{sectionType}'', ''{templateName}'']"

definition mentions :: "string \<Rightarrow> GenerationContext \<Rightarrow> bool" where
  "mentions tok ctx =
     (str_includes tok (given (rfpContent ctx))
      \<or> str_includes tok (given (companyProfile ctx))
      \<or> (\<exists>r \<in> set (given (requirements ctx)). str_includes tok r)
      \<or> (\<exists>c \<in> set (given (constraints ctx)). str_includes tok c)
      \<or> str_includes tok (given (targetAudience ctx)))"

text \<open>The template text after the two substitutions of \<^verbatim>\<open>buildPrompt\<close>.\<close>

definition substituted :: "string \<Rightarrow> SectionTemplate \<Rightarrow> string" where
  "substituted sectionType template =
     replace (replace (promptTemplate template) ''{sectionType}'' sectionType)
       ''{templateName}'' (name template)"

text \<open>Two contexts: an ordinary one, and one whose document quotes a placeholder.\<close>

definition sample_context :: GenerationContext where
  "sample_context =
     \<lparr>rfpContent = Some ''We need a cloud CRM.'', companyProfile = None,
      requirements = Some [''SSO'', ''Audit log''], constraints = Some [],
      targetAudience = Some ''CTO''\<rparr>"

definition token_context :: GenerationContext where
  "token_context =
     \<lparr>rfpContent = Some ''Use {templateName} here.'', companyProfile = None,
      requirements = None, constraints = None, targetAudience = None\<rparr>"

section \<open>The bound of the parser\<close>

lemma skip_ws_length: "length (skip_ws cs) \<le> length cs"
  by (simp add: skip_ws_def length_dropWhile_le)

lemma skip_ws_Cons_length: "skip_ws cs = c # r \<Longrightarrow> length r < length cs"
  using skip_ws_length [of cs] by simp

lemma cons_to_Some: "cons_to c res = Some (s, r) \<Longrightarrow> \<exists>s'. res = Some (s', r)"
  by (auto simp add: cons_to_def)

lemma string_body_length: "string_body cs = Some (s, r) \<Longrightarrow> length r < length cs"
proof (induction cs arbitrary: s rule: string_body.induct)
  case 1
  then show ?case by simp
next
  case (2 c cs)
  show ?case
  proof (cases "c = CHR 0x22")
    case True
    with 2 show ?thesis by simp
  next
    case nq: False
    show ?thesis
    proof (cases "c = CHR 0x5C")
      case True
      show ?thesis
      proof (cases cs)
        case Nil
        with 2 nq True show ?thesis by simp
      next
        case (Cons e r0)
        show ?thesis
        proof (cases "e = CHR ''u''")
          case u: True
          from "2.prems" nq True Cons u obtain w where "hex4 r0 = Some w" and "w < 256"
            and "cons_to (char_of w) (string_body (drop 4 r0)) = Some (s, r)"
            by (auto split: option.splits if_splits)
          then obtain s' where "string_body (drop 4 r0) = Some (s', r)"
            using cons_to_Some by blast
          with "2.IH"(1) [OF nq True Cons u \<open>hex4 r0 = Some w\<close> \<open>w < 256\<close>]
          have "length r < length (drop 4 r0)" by simp
          with Cons show ?thesis by simp
        next
          case nu: False
          from "2.prems" nq True Cons nu obtain x where x: "escape e = Some x"
            and "cons_to x (string_body r0) = Some (s, r)"
            by (auto split: option.splits)
          then obtain s' where "string_body r0 = Some (s', r)"
            using cons_to_Some by blast
          with "2.IH"(2) [OF nq True Cons nu x] have "length r < length r0" by simp
          with Cons show ?thesis by simp
        qed
      qed
    next
      case nb: False
      from "2.prems" nq nb have ok: "\<not> (of_char c :: nat) < 32"
        and "cons_to c (string_body cs) = Some (s, r)"
        by (auto split: if_splits)
      then obtain s' where "string_body cs = Some (s', r)"
        using cons_to_Some by blast
      with "2.IH"(3) [OF nq nb ok] show ?thesis by simp
    qed
  qed
qed

lemma fraction_part_length: "fraction_part cs = Some (fp, r) \<Longrightarrow> length r \<le> length cs"
  by (auto simp add: fraction_part_def Let_def split: list.splits if_splits
      intro: le_SucI length_dropWhile_le)

lemma exponent_part_length: "exponent_part cs = Some (ex, r) \<Longrightarrow> length r \<le> length cs"
  by (auto simp add: exponent_part_def Let_def split: list.splits if_splits prod.splits
      intro: le_SucI length_dropWhile_le order_trans [OF length_dropWhile_le])

lemma dropWhile_shorter: "takeWhile P xs \<noteq> [] \<Longrightarrow> length (dropWhile P xs) < length xs"
  by (cases xs) (auto split: if_splits intro: le_imp_less_Suc length_dropWhile_le)

lemma parse_number_length: "parse_number cs = Some (v, r) \<Longrightarrow> length r < length cs"
proof -
  assume p: "parse_number cs = Some (v, r)"
  obtain neg cs1 where n: "(case cs of [] \<Rightarrow> (False, cs)
             | c # r \<Rightarrow> if c = CHR ''-'' then (True, r) else (False, cs)) = (neg, cs1)"
    by (cases "(case cs of [] \<Rightarrow> (False, cs)
             | c # r \<Rightarrow> if c = CHR ''-'' then (True, r) else (False, cs))")
  then have l1: "length cs1 \<le> length cs"
    by (auto split: list.splits if_splits)
  from p n have ip: "takeWhile is_digit cs1 \<noteq> []"
    by (auto simp add: parse_number_def Let_def split: if_splits)
  from p n ip obtain fp r2 ex where f: "fraction_part (dropWhile is_digit cs1) = Some (fp, r2)"
    and e: "exponent_part r2 = Some (ex, r)"
    by (auto simp add: parse_number_def Let_def split: if_splits option.splits)
  from fraction_part_length [OF f] exponent_part_length [OF e] dropWhile_shorter [OF ip] l1
  show ?thesis by simp
qed

lemma after_Parsed:
  "after p f = Parsed x r \<longleftrightarrow> (\<exists>y r0. p = Parsed y r0 \<and> f y r0 = Parsed x r)"
  by (cases p) auto

lemma after_Fuel:
  "after p f = Fuel \<longleftrightarrow> p = Fuel \<or> (\<exists>y r0. p = Parsed y r0 \<and> f y r0 = Fuel)"
  by (cases p) auto

lemma parse_consumes:
  "(\<forall>cs v r. parse_value n cs = Parsed v r \<longrightarrow> length r < length cs)
   \<and> (\<forall>cs vs r. parse_elements n cs = Parsed vs r \<longrightarrow> length r < length cs)
   \<and> (\<forall>cs kvs r. parse_members n cs = Parsed kvs r \<longrightarrow> length r < length cs)"
proof (induction n)
  case 0
  then show ?case by simp
next
  case (Suc n)
  then have V: "\<And>cs v r. parse_value n cs = Parsed v r \<Longrightarrow> length r < length cs"
    and E: "\<And>cs vs r. parse_elements n cs = Parsed vs r \<Longrightarrow> length r < length cs"
    and M: "\<And>cs kvs r. parse_members n cs = Parsed kvs r \<Longrightarrow> length r < length cs"
    by blast+
  have v: "length r < length cs" if p: "parse_value (Suc n) cs = Parsed v r" for cs v r
  proof (cases "skip_ws cs")
    case Nil
    with p show ?thesis by simp
  next
    case (Cons c r0)
    note l0 = skip_ws_Cons_length [OF Cons]
    consider (obj) "c = CHR ''{''" | (arr) "c \<noteq> CHR ''{''" "c = CHR ''[''"
      | (str) "c \<noteq> CHR ''{''" "c \<noteq> CHR ''[''" "c = CHR 0x22"
      | (other) "c \<noteq> CHR ''{''" "c \<noteq> CHR ''[''" "c \<noteq> CHR 0x22"
      by blast
    then show ?thesis
    proof cases
      case obj
      show ?thesis
      proof (cases "skip_ws r0")
        case Nil
        with p Cons obj show ?thesis by simp
      next
        case inner: (Cons d r1)
        note l1 = skip_ws_Cons_length [OF inner]
        show ?thesis
        proof (cases "d = CHR ''}''")
          case True
          with p Cons obj inner l0 l1 show ?thesis by auto
        next
          case False
          with p Cons obj inner obtain kvs where "parse_members n (d # r1) = Parsed kvs r"
            by (auto simp add: after_Parsed)
          from M [OF this] l0 l1 show ?thesis by simp
        qed
      qed
    next
      case arr
      show ?thesis
      proof (cases "skip_ws r0")
        case Nil
        with p Cons arr show ?thesis by simp
      next
        case inner: (Cons d r1)
        note l1 = skip_ws_Cons_length [OF inner]
        show ?thesis
        proof (cases "d = CHR '']''")
          case True
          with p Cons arr inner l0 l1 show ?thesis by auto
        next
          case False
          with p Cons arr inner obtain vs where "parse_elements n (d # r1) = Parsed vs r"
            by (auto simp add: after_Parsed)
          from E [OF this] l0 l1 show ?thesis by simp
        qed
      qed
    next
      case str
      with p Cons obtain s where "string_body r0 = Some (s, r)"
        by (auto split: option.splits)
      from string_body_length [OF this] l0 show ?thesis by simp
    next
      case other
      from skip_ws_length [of cs] Cons have lc: "length (c # r0) \<le> length cs" by simp
      from p Cons other have
        "(r = drop 4 (c # r0)) \<or> (r = drop 5 (c # r0)) \<or> (\<exists>v. parse_number (c # r0) = Some (v, r))"
        by (auto split: if_splits option.splits)
      then show ?thesis
      proof (elim disjE exE)
        assume "r = drop 4 (c # r0)"
        with lc show ?thesis by simp
      next
        assume "r = drop 5 (c # r0)"
        with lc show ?thesis by simp
      next
        fix v' assume "parse_number (c # r0) = Some (v', r)"
        from parse_number_length [OF this] lc show ?thesis by simp
      qed
    qed
  qed
  have e: "length r < length cs" if p: "parse_elements (Suc n) cs = Parsed vs r" for cs vs r
  proof -
    from p obtain v r1 where pv: "parse_value n cs = Parsed v r1"
      and rest: "(case skip_ws r1 of
         [] \<Rightarrow> Syntax
       | c # r' \<Rightarrow>
           if c = CHR '']'' then Parsed [v] r'
           else if c = CHR '','' then after (parse_elements n r') (\<lambda>vs r''. Parsed (v # vs) r'')
           else Syntax) = Parsed vs r"
      by (auto simp add: after_Parsed)
    note l1 = V [OF pv]
    from rest obtain c r2 where sk: "skip_ws r1 = c # r2"
      by (cases "skip_ws r1") auto
    note l2 = skip_ws_Cons_length [OF sk]
    show ?thesis
    proof (cases "c = CHR '']''")
      case True
      with rest sk l1 l2 show ?thesis by auto
    next
      case False
      with rest sk obtain vs' where "parse_elements n r2 = Parsed vs' r"
        by (auto simp add: after_Parsed split: if_splits)
      from E [OF this] l1 l2 show ?thesis by simp
    qed
  qed
  have m: "length r < length cs" if p: "parse_members (Suc n) cs = Parsed kvs r" for cs kvs r
  proof -
    from p obtain q r0 where sk0: "skip_ws cs = q # r0" and q: "q = CHR 0x22"
      by (cases "skip_ws cs") (auto split: if_splits)
    from p sk0 q obtain k r1 where sb: "string_body r0 = Some (k, r1)"
      by (cases "string_body r0") auto
    from p sk0 q sb obtain c r2 where sk1: "skip_ws r1 = c # r2" and c: "c = CHR '':''"
      by (cases "skip_ws r1") (auto split: if_splits)
    from p sk0 q sb sk1 c obtain v r3 where pv: "parse_value n r2 = Parsed v r3"
      and rest: "(case skip_ws r3 of
                            [] \<Rightarrow> Syntax
                          | d # r4 \<Rightarrow>
                              if d = CHR ''}'' then Parsed [(k, v)] r4
                              else if d = CHR '','' then
                                after (parse_members n r4) (\<lambda>kvs r5. Parsed ((k, v) # kvs) r5)
                              else Syntax) = Parsed kvs r"
      by (auto simp add: after_Parsed)
    from rest obtain d r4 where sk3: "skip_ws r3 = d # r4"
      by (cases "skip_ws r3") auto
    note l = skip_ws_Cons_length [OF sk0] string_body_length [OF sb]
      skip_ws_Cons_length [OF sk1] V [OF pv] skip_ws_Cons_length [OF sk3]
    show ?thesis
    proof (cases "d = CHR ''}''")
      case True
      with rest sk3 l show ?thesis by auto
    next
      case False
      with rest sk3 obtain kvs' where "parse_members n r4 = Parsed kvs' r"
        by (auto simp add: after_Parsed split: if_splits)
      from M [OF this] l show ?thesis by simp
    qed
  qed
  from v e m show ?case by blast
qed

lemma parse_value_consumes:
  "parse_value n cs = Parsed v r \<Longrightarrow> length r < length cs"
  using parse_consumes [of n] by blast

lemma parse_fuel:
  "(\<forall>cs. 2 * length cs + 1 \<le> n \<longrightarrow> parse_value n cs \<noteq> Fuel)
   \<and> (\<forall>cs. 2 * length cs + 2 \<le> n \<longrightarrow> parse_elements n cs \<noteq> Fuel)
   \<and> (\<forall>cs. 2 * length cs + 1 \<le> n \<longrightarrow> parse_members n cs \<noteq> Fuel)"
proof (induction n)
  case 0
  then show ?case by simp
next
  case (Suc n)
  then have V: "\<And>cs. 2 * length cs + 1 \<le> n \<Longrightarrow> parse_value n cs \<noteq> Fuel"
    and E: "\<And>cs. 2 * length cs + 2 \<le> n \<Longrightarrow> parse_elements n cs \<noteq> Fuel"
    and M: "\<And>cs. 2 * length cs + 1 \<le> n \<Longrightarrow> parse_members n cs \<noteq> Fuel"
    by blast+
  have v: "parse_value (Suc n) cs \<noteq> Fuel" if b: "2 * length cs + 1 \<le> Suc n" for cs
  proof (cases "skip_ws cs")
    case Nil
    then show ?thesis by simp
  next
    case (Cons c r0)
    note l0 = skip_ws_Cons_length [OF Cons]
    show ?thesis
    proof (cases "skip_ws r0")
      case Nil
      with Cons show ?thesis by (simp split: option.splits)
    next
      case inner: (Cons d r1)
      from skip_ws_length [of r0] inner have "length (d # r1) \<le> length r0" by simp
      with l0 b have small: "2 * length (d # r1) + 2 \<le> n" by simp
      then have "2 * length (d # r1) + 1 \<le> n" by simp
      from M [OF this] E [OF small] Cons inner show ?thesis
        by (auto simp add: after_Fuel split: option.splits)
    qed
  qed
  have e: "parse_elements (Suc n) cs \<noteq> Fuel" if b: "2 * length cs + 2 \<le> Suc n" for cs
  proof
    assume f: "parse_elements (Suc n) cs = Fuel"
    from b have "2 * length cs + 1 \<le> n" by simp
    note nv = V [OF this]
    with f obtain v r1 where pv: "parse_value n cs = Parsed v r1"
      and rest: "(case skip_ws r1 of
         [] \<Rightarrow> Syntax
       | c # r' \<Rightarrow>
           if c = CHR '']'' then Parsed [v] r'
           else if c = CHR '','' then after (parse_elements n r') (\<lambda>vs r''. Parsed (v # vs) r'')
           else Syntax) = Fuel"
      by (auto simp add: after_Fuel)
    from rest obtain c r2 where sk: "skip_ws r1 = c # r2"
      by (cases "skip_ws r1") auto
    from parse_value_consumes [OF pv] skip_ws_Cons_length [OF sk] b
    have "2 * length r2 + 2 \<le> n" by simp
    from E [OF this] rest sk show False
      by (auto simp add: after_Fuel split: if_splits)
  qed
  have m: "parse_members (Suc n) cs \<noteq> Fuel" if b: "2 * length cs + 1 \<le> Suc n" for cs
  proof
    assume f: "parse_members (Suc n) cs = Fuel"
    from f obtain q r0 where sk0: "skip_ws cs = q # r0" and q: "q = CHR 0x22"
      by (cases "skip_ws cs") (auto split: if_splits)
    from f sk0 q obtain k r1 where sb: "string_body r0 = Some (k, r1)"
      by (cases "string_body r0") auto
    from f sk0 q sb obtain c r2 where sk1: "skip_ws r1 = c # r2" and c: "c = CHR '':''"
      by (cases "skip_ws r1") (auto split: if_splits)
    note l = skip_ws_Cons_length [OF sk0] string_body_length [OF sb]
      skip_ws_Cons_length [OF sk1]
    with b have "2 * length r2 + 1 \<le> n" by simp
    note nv = V [OF this]
    with f sk0 q sb sk1 c obtain v r3 where pv: "parse_value n r2 = Parsed v r3"
      and rest: "(case skip_ws r3 of
                            [] \<Rightarrow> Syntax
                          | d # r4 \<Rightarrow>
                              if d = CHR ''}'' then Parsed [(k, v)] r4
                              else if d = CHR '','' then
                                after (parse_members n r4) (\<lambda>kvs r5. Parsed ((k, v) # kvs) r5)
                              else Syntax) = Fuel"
      by (auto simp add: after_Fuel)
    from rest obtain d r4 where sk3: "skip_ws r3 = d # r4"
      by (cases "skip_ws r3") auto
    from l parse_value_consumes [OF pv] skip_ws_Cons_length [OF sk3] b
    have "2 * length r4 + 1 \<le> n" by simp
    from M [OF this] rest sk3 show False
      by (auto simp add: after_Fuel split: if_splits)
  qed
  from v e m show ?case by blast
qed

text \<open>
  The fuel that \<open>JSON_parse\<close> gives is enough on every text: \<open>None\<close> is a syntax error,
  never a parse cut short.
\<close>

lemma JSON_parse_enough_fuel: "parse_value (2 * length text + 1) text \<noteq> Fuel"
  using parse_fuel [of "2 * length text + 1"] by blast

section \<open>The read loop, line by line\<close>

lemma DONE_line:
  "prefix ''data: '' line \<and> drop 6 line = ''[DONE]'' \<longleftrightarrow> line = ''data: [DONE]''"
  by (auto simp: prefix_def)

lemma process_line_eq:
  "process_line toStr sid (acc, n) line =
     (if line = ''data: [DONE]'' then ([Progress (completed sid acc)], Inr acc)
      else (case line_delta toStr line of
              None \<Rightarrow> ([], Inl (acc, n))
            | Some (v, s) \<Rightarrow>
                ([Chunk v, Progress (generating sid (increment n) (acc @ s))],
                 Inl (acc @ s, increment n))))"
proof (cases "line = ''data: [DONE]''")
  case True
  then show ?thesis by (simp add: process_line_def completed_def)
next
  case False
  then have nd: "\<not> (prefix ''data: '' line \<and> drop 6 line = ''[DONE]'')"
    using DONE_line by blast
  show ?thesis
  proof (cases "prefix ''data: '' line")
    case True
    with nd have "drop 6 line \<noteq> ''[DONE]''" by blast
    with True False show ?thesis
      by (auto simp add: process_line_def line_delta_def generating_def Let_def
          split: option.splits)
  next
    case False
    then show ?thesis using \<open>line \<noteq> ''data: [DONE]''\<close>
      by (simp add: process_line_def line_delta_def)
  qed
qed

lemma deltas_simps [simp]:
  "deltas toStr [] = []"
  "deltas toStr (l # ls) =
     (case line_delta toStr l of None \<Rightarrow> deltas toStr ls | Some d \<Rightarrow> d # deltas toStr ls)"
  by (simp_all add: deltas_def List.map_filter_simps split: option.splits)

lemma process_lines_no_done:
  "DONE \<notin> set ls \<Longrightarrow>
   process_lines toStr sid st ls
     = (emit sid st (deltas toStr ls), Inl (advance st (deltas toStr ls)))"
proof (induction ls arbitrary: st)
  case Nil
  then show ?case by simp
next
  case (Cons l ls)
  obtain acc n where st: "st = (acc, n)" by (cases st)
  from Cons.prems have l: "l \<noteq> ''data: [DONE]''" and ls: "DONE \<notin> set ls"
    by (auto simp: DONE_def)
  show ?case
    using l Cons.IH [OF ls]
    by (simp add: st process_line_eq split: option.splits)
qed

lemma process_lines_done:
  "DONE \<notin> set pre \<Longrightarrow>
   process_lines toStr sid st (pre @ DONE # post) =
     (emit sid st (deltas toStr pre)
        @ [Progress (completed sid (fst (advance st (deltas toStr pre))))],
      Inr (fst (advance st (deltas toStr pre))))"
proof (induction pre arbitrary: st)
  case Nil
  obtain acc n where st: "st = (acc, n)" by (cases st)
  show ?case by (simp add: st process_line_eq DONE_def)
next
  case (Cons l ls)
  obtain acc n where st: "st = (acc, n)" by (cases st)
  from Cons.prems have l: "l \<noteq> ''data: [DONE]''" and ls: "DONE \<notin> set ls"
    by (auto simp: DONE_def)
  show ?case
    using l Cons.IH [OF ls]
    by (simp add: st process_line_eq split: option.splits)
qed

lemma process_lines_append:
  "process_lines toStr sid st (xs @ ys) =
     (case process_lines toStr sid st xs of
        (evs, Inr r) \<Rightarrow> (evs, Inr r)
      | (evs, Inl st') \<Rightarrow>
          (case process_lines toStr sid st' ys of (evs', res) \<Rightarrow> (evs @ evs', res)))"
  by (induction xs arbitrary: st) (auto split: prod.splits sum.splits)

text \<open>The loop over the reads is the loop over all their lines.\<close>

lemma read_loop_lines:
  "read_loop toStr sid st reads e = run_lines toStr sid st (concat (map split_lines reads)) e"
proof (induction reads arbitrary: st)
  case Nil
  then show ?case by (cases e) (simp_all add: run_lines_def at_end_def)
next
  case (Cons r rs)
  show ?case
    by (auto simp add: Cons.IH run_lines_def process_lines_append split: prod.splits sum.splits)
qed

text \<open>An empty line does nothing, so reads that end at line ends can be glued together.\<close>

lemma line_delta_Nil [simp]: "line_delta toStr [] = None"
  by (simp add: line_delta_def)

lemma process_lines_skip_empty:
  "process_lines toStr sid st (filter (\<lambda>l. l \<noteq> []) ls) = process_lines toStr sid st ls"
proof (induction ls arbitrary: st)
  case Nil
  then show ?case by simp
next
  case (Cons l ls)
  obtain acc n where st: "st = (acc, n)" by (cases st)
  show ?case
  proof (cases "l = []")
    case True
    then show ?thesis by (simp add: st process_line_eq Cons.IH)
  next
    case False
    then show ?thesis by (simp add: Cons.IH split: prod.splits sum.splits)
  qed
qed

lemma split_lines_not_Nil [simp]: "split_lines s \<noteq> []"
  by (induction s) (auto split: list.splits)

lemma split_lines_append:
  "split_lines (x @ CHR 0x0A # y) = split_lines x @ split_lines y"
  by (induction x) (auto split: list.splits)

lemma split_lines_plain: "CHR 0x0A \<notin> set x \<Longrightarrow> split_lines x = [x]"
  by (induction x) auto

lemma split_lines_line:
  "CHR 0x0A \<notin> set x \<Longrightarrow> split_lines (x @ CHR 0x0A # y) = x # split_lines y"
  by (simp add: split_lines_append split_lines_plain)

lemma lines_of_whole_reads:
  "whole_lines reads \<Longrightarrow>
   filter (\<lambda>l. l \<noteq> []) (concat (map split_lines reads))
     = filter (\<lambda>l. l \<noteq> []) (split_lines (concat reads))"
proof (induction reads)
  case Nil
  then show ?case by simp
next
  case (Cons r rs)
  then have IH: "filter (\<lambda>l. l \<noteq> []) (concat (map split_lines rs))
     = filter (\<lambda>l. l \<noteq> []) (split_lines (concat rs))"
    and r: "r = [] \<or> last r = CHR 0x0A"
    by (simp_all add: whole_lines_def)
  show ?case
  proof (cases "r = []")
    case True
    then show ?thesis by (simp add: IH)
  next
    case False
    with r obtain x where x: "r = x @ [CHR 0x0A]"
      by (metis append_butlast_last_id)
    have "split_lines r = split_lines x @ [[]]"
      using split_lines_append [of x "[]"] by (simp add: x)
    moreover have "split_lines (concat (r # rs)) = split_lines x @ split_lines (concat rs)"
      using split_lines_append [of x "concat rs"] by (simp add: x)
    ultimately show ?thesis by (simp add: IH)
  qed
qed

lemma run_lines_skip_empty:
  "run_lines toStr sid st (filter (\<lambda>l. l \<noteq> []) ls) e = run_lines toStr sid st ls e"
  by (simp add: run_lines_def process_lines_skip_empty)

lemma read_loop_whole_lines:
  assumes "whole_lines reads"
  shows "read_loop toStr sid st reads e
           = run_lines toStr sid st (filter (\<lambda>l. l \<noteq> []) (split_lines (concat reads))) e"
proof -
  have "read_loop toStr sid st reads e
      = run_lines toStr sid st (filter (\<lambda>l. l \<noteq> []) (concat (map split_lines reads))) e"
    by (simp add: read_loop_lines run_lines_skip_empty)
  then show ?thesis
    by (simp add: lines_of_whole_reads [OF assms])
qed

text \<open>What a run of deltas leaves in the trace and in the state.\<close>

lemma chunks_append [simp]: "chunks (xs @ ys) = chunks xs @ chunks ys"
  by (induction xs rule: chunks.induct) simp_all

lemma progress_events_append [simp]:
  "progress_events (xs @ ys) = progress_events xs @ progress_events ys"
  by (induction xs rule: progress_events.induct) simp_all

lemma requests_append [simp]: "requests (xs @ ys) = requests xs @ requests ys"
  by (induction xs rule: requests.induct) simp_all

lemma chunks_emit [simp]: "chunks (emit sid st ds) = map fst ds"
  by (induction sid st ds rule: emit.induct) simp_all

lemma requests_emit [simp]: "requests (emit sid st ds) = []"
  by (induction sid st ds rule: emit.induct) simp_all

lemma fst_advance: "fst (advance st ds) = fst st @ concat (map snd ds)"
  by (induction st ds rule: advance.induct) simp_all

lemma status_emit:
  "p \<in> set (progress_events (emit sid st ds)) \<Longrightarrow> status p = Generating"
  by (induction sid st ds rule: emit.induct) (auto simp: generating_def)

lemma emit_Nil_iff [simp]: "emit sid st ds = [] \<longleftrightarrow> ds = []"
  by (cases ds) auto

lemma progress_emit_Nil_iff [simp]: "progress_events (emit sid st ds) = [] \<longleftrightarrow> ds = []"
  by (cases ds) auto

lemma last_progress_emit:
  "ds \<noteq> [] \<Longrightarrow>
   content (last (progress_events (emit sid st ds))) = Some (fst (advance st ds))"
proof (induction sid st ds rule: emit.induct)
  case (1 sid st)
  then show ?case by simp
next
  case (2 sid st v s ds)
  then show ?case by (cases "ds = []") (simp_all add: generating_def)
qed

lemma line_delta_text: "line_delta toStr l = Some (v, s) \<Longrightarrow> text_of toStr v = Some s"
  by (auto simp: line_delta_def split: if_splits option.splits)

lemma deltas_text: "(v, s) \<in> set (deltas toStr ls) \<Longrightarrow> text_of toStr v = Some s"
  by (induction ls) (auto split: option.splits dest: line_delta_text)

lemma delivered_emit:
  "\<forall>(v, s) \<in> set ds. text_of toStr v = Some s \<Longrightarrow>
   delivered toStr (emit sid st ds) = concat (map snd ds)"
proof (induction ds arbitrary: st)
  case Nil
  then show ?case by (simp add: delivered_def)
next
  case (Cons d ds)
  obtain v s where d: "d = (v, s)" by (cases d)
  from Cons.prems have v: "text_of toStr v = Some s"
    and rest: "\<forall>(v, s) \<in> set ds. text_of toStr v = Some s"
    by (auto simp: d)
  from Cons.IH [OF rest, of "(fst st @ s, increment (snd st))"] v
  show ?case by (simp add: d delivered_def)
qed

lemma delivered_append [simp]:
  "delivered toStr (xs @ ys) = delivered toStr xs @ delivered toStr ys"
  by (simp add: delivered_def)

section \<open>Reads made of whole frames\<close>

lemma data_line_simps [simp]:
  "prefix ''data: '' (data_line p)"
  "drop 6 (data_line p) = p"
  "data_line p \<noteq> []"
  "CHR 0x0A \<in> set (data_line p) \<longleftrightarrow> CHR 0x0A \<in> set p"
  "data_line p = DONE \<longleftrightarrow> p = ''[DONE]''"
  by (simp_all add: data_line_def DONE_def)

lemma line_delta_carries:
  "carries p d \<Longrightarrow> line_delta toStr (data_line p) = Some (JStr d, d)"
  unfolding carries_def line_delta_def
  by (auto simp add: text_of_def)

lemma carries_not_DONE: "carries p d \<Longrightarrow> data_line p \<noteq> DONE"
proof
  assume c: "carries p d" and "data_line p = DONE"
  then have "p = ''[DONE]''" by simp
  moreover have "JSON_parse ''[DONE]'' = None" by code_simp
  ultimately show False using c by (simp add: carries_def)
qed

lemma split_frames:
  "\<forall>p \<in> set ps. CHR 0x0A \<notin> set p \<Longrightarrow>
   split_lines (concat (map sse_frame ps) @ rest) = map data_line ps @ split_lines rest"
proof (induction ps)
  case Nil
  then show ?case by simp
next
  case (Cons p ps)
  then have p: "CHR 0x0A \<notin> set (data_line p)" by simp
  from Cons have IH: "split_lines (concat (map sse_frame ps) @ rest)
     = map data_line ps @ split_lines rest" by simp
  have "concat (map sse_frame (p # ps)) @ rest
          = data_line p @ CHR 0x0A # (concat (map sse_frame ps) @ rest)"
    by (simp add: sse_frame_def [of p])
  then show ?case
    using split_lines_line [OF p, of "concat (map sse_frame ps) @ rest"] IH
    by simp
qed

lemma deltas_frames:
  "list_all2 carries ps ds \<Longrightarrow>
   deltas toStr (map data_line ps) = map (\<lambda>d. (JStr d, d)) ds"
  by (induction rule: list_all2_induct) (simp_all add: line_delta_carries)

lemma frames_not_DONE:
  "list_all2 carries ps ds \<Longrightarrow> DONE \<notin> set (map data_line ps)"
  by (induction rule: list_all2_induct) (auto dest: carries_not_DONE simp del: data_line_simps)

lemma frames_no_newline:
  "list_all2 carries ps ds \<Longrightarrow> \<forall>p \<in> set ps. CHR 0x0A \<notin> set p"
  by (induction rule: list_all2_induct) (auto simp: carries_def)

lemma read_loop_frames:
  assumes whole: "whole_lines reads"
    and cat: "concat reads = concat (map sse_frame ps) @ sse_frame ''[DONE]''"
    and car: "list_all2 carries ps ds"
  shows "read_loop toStr sid ([], 0) reads e
           = (emit sid ([], 0) (map (\<lambda>d. (JStr d, d)) ds) @ [Progress (completed sid (concat ds))],
              Resolved (concat ds))"
proof -
  let ?pre = "map data_line ps"
  have "split_lines (sse_frame ''[DONE]'') = [DONE, []]"
    by (simp add: sse_frame_def data_line_def DONE_def)
  then have "split_lines (concat reads) = ?pre @ [DONE, []]"
    using split_frames [OF frames_no_newline [OF car], of "sse_frame ''[DONE]''"]
    by (simp add: cat)
  moreover have "filter (\<lambda>l. l \<noteq> []) ?pre = ?pre"
    by (simp add: filter_id_conv)
  ultimately have "filter (\<lambda>l. l \<noteq> []) (split_lines (concat reads)) = ?pre @ [DONE]"
    by (simp add: DONE_def)
  then have "read_loop toStr sid ([], 0) reads e = run_lines toStr sid ([], 0) (?pre @ [DONE]) e"
    by (simp add: read_loop_whole_lines [OF whole])
  also have "\<dots> = (emit sid ([], 0) (deltas toStr ?pre)
                       @ [Progress (completed sid (fst (advance ([], 0) (deltas toStr ?pre))))],
                    Resolved (fst (advance ([], 0) (deltas toStr ?pre))))"
    using process_lines_done [OF frames_not_DONE [OF car], of toStr sid "([], 0)" "[]"]
    by (simp add: run_lines_def)
  finally show ?thesis
    by (simp add: deltas_frames [OF car] fst_advance comp_def)
qed




lemma parse_Hello:
  \<open>JSON_parse (delta_payload ''Hello'')
     = Some (JObj [(''choices'', JArr [JObj [(''delta'', JObj [(''content'', JStr ''Hello'')])]])])\<close>
  unfolding delta_payload_def by code_simp

lemma parse_world:
  \<open>JSON_parse (delta_payload '' world'')
     = Some (JObj [(''choices'', JArr [JObj [(''delta'', JObj [(''content'', JStr '' world'')])]])])\<close>
  unfolding delta_payload_def by code_simp

lemma carries_Hello: "carries (delta_payload ''Hello'') ''Hello''"
  unfolding carries_def
  by (simp add: parse_Hello delta_content_def) (simp add: delta_payload_def)

lemma carries_world: "carries (delta_payload '' world'') '' world''"
  unfolding carries_def
  by (simp add: parse_world delta_content_def) (simp add: delta_payload_def)

lemma last_emit_completed [simp]:
  "last (xs @ emit sid st ds @ [e]) = e"
  by simp

section \<open>Failures and their progress event\<close>










lemma analyzeDocument_enabled:
  "enableAIGeneration cfg \<Longrightarrow>
   analyzeDocument message cfg s doc net =
     (let cancel = (case abortController s of None \<Rightarrow> [] | Some c \<Rightarrow> [Abort c]);
          started = [Progress (analyzing 0 ''Preparing analysis...''),
                     Fetch \<lparr>prompt = buildAnalysisPrompt doc, max_tokens = openai_maxTokens cfg,
                       stream = False, signal = created s\<rparr>];
          final = \<lparr>abortController = Some (created s), created = Suc (created s)\<rparr>
      in (case read_analysis message net of
            (evs, Resolved r) \<Rightarrow> (cancel @ started @ evs, Resolved r, final)
          | (evs, Rejected t) \<Rightarrow>
              (cancel @ started @ evs @ [Progress (analysis_failed (errorMessage t))],
               Rejected (ErrorObject (''Document analysis failed: '' @ errorMessage t)),
               final)))"
  by (simp add: analyzeDocument_def Let_def analysis_failed_def)



section \<open>The loop over the sections\<close>







section \<open>The request of the analyzer\<close>

lemma requests_read_analysis:
  "requests (fst (read_analysis message net)) = []"
  by (simp add: read_analysis_def interpret_data_def interpret_reply_def
      split: fetched.splits json_body.splits option.splits json.splits prod.splits)

lemma requests_analyzeDocument:
  "enableAIGeneration cfg \<Longrightarrow>
   requests (fst (analyzeDocument message cfg s doc net))
     = [\<lparr>prompt = buildAnalysisPrompt doc, max_tokens = openai_maxTokens cfg,
         stream = False, signal = created s\<rparr>]"
proof -
  assume en: "enableAIGeneration cfg"
  obtain evs0 res where sr: "read_analysis message net = (evs0, res)"
    by (cases "read_analysis message net")
  from requests_read_analysis [of message net] have "requests evs0 = []"
    by (simp add: sr)
  then show ?thesis
    by (cases res) (simp_all add: analyzeDocument_enabled [OF en] Let_def sr split: option.splits)
qed

lemma trim_Nil: "trim [] = []"
  by (simp add: trim_def)

section \<open>The match of the reply\<close>


















section \<open>Placeholders in the prompt\<close>

lemma str_includes_sublist: "str_includes pat s \<longleftrightarrow> sublist pat s"
  unfolding str_includes_def
  by (induction s) (auto simp add: sublist_Cons_right)

lemma find_first_absent:
  "c \<notin> set s \<Longrightarrow> find_first (c # rest) s = None"
  by (induction s) (auto simp add: prefix_def)

lemma find_first_here:
  "c \<notin> set pre \<Longrightarrow> find_first (c # rest) (pre @ (c # rest) @ post) = Some (pre, post)"
  by (induction pre) (auto simp add: prefix_def)

lemma replace_absent:
  "c \<notin> set s \<Longrightarrow> replace s (c # rest) rep = s"
  by (simp add: replace_def find_first_absent)

lemma no_brace_no_token:
  "CHR ''{'' \<notin> set s \<Longrightarrow> \<not> sublist (CHR ''{'' # rest) s"
  using set_mono_sublist by fastforce

lemma sublist_skip:
  "c \<noteq> d \<Longrightarrow> sublist (d # rest) (c # B) \<longleftrightarrow> sublist (d # rest) B"
  by (simp add: sublist_Cons_right)

lemma sublist_sep:
  assumes "c \<notin> set tok"
  shows "sublist tok (A @ c # B) \<longleftrightarrow> sublist tok A \<or> sublist tok B"
proof
  assume "sublist tok (A @ c # B)"
  then consider "sublist tok A" | "sublist tok (c # B)"
    | xs1 xs2 where "tok = xs1 @ xs2" "suffix xs1 A" "prefix xs2 (c # B)"
    by (auto simp add: sublist_append)
  then show "sublist tok A \<or> sublist tok B"
  proof cases
    case 1
    then show ?thesis by simp
  next
    case 2
    then have "prefix tok (c # B) \<or> sublist tok B"
      by (simp add: sublist_Cons_right)
    moreover have "prefix tok (c # B) \<Longrightarrow> tok = []"
      using assms by (cases tok) auto
    ultimately show ?thesis by auto
  next
    case 3
    from 3(3) assms 3(1) have "xs2 = []"
      by (cases xs2) auto
    with 3 have "suffix tok A" by simp
    then show ?thesis
      by (auto simp add: suffix_def)
  qed
next
  assume "sublist tok A \<or> sublist tok B"
  then show "sublist tok (A @ c # B)"
  proof
    assume "sublist tok A"
    then obtain ps ss where "A = ps @ tok @ ss" by (auto simp add: sublist_def)
    then have "A @ c # B = ps @ tok @ (ss @ c # B)" by simp
    then show ?thesis unfolding sublist_def by blast
  next
    assume "sublist tok B"
    then obtain ps ss where "B = ps @ tok @ ss" by (auto simp add: sublist_def)
    then have "A @ c # B = (A @ c # ps) @ tok @ ss" by simp
    then show ?thesis unfolding sublist_def by blast
  qed
qed

lemma join_items_clean:
  assumes "CHR 0x0A \<notin> set rest" and "\<forall>r \<in> set rs. \<not> sublist (CHR ''{'' # rest) r"
  shows "\<not> sublist (CHR ''{'' # rest) (join ''\<newline>'' (map (\<lambda>r. ''- '' @ r) rs))"
  using assms(2)
proof (induction rs rule: induct_list012)
  case 1
  then show ?case by simp
next
  case (2 x)
  then show ?case by (simp add: sublist_skip)
next
  case (3 x y zs)
  have nl: "CHR 0x0A \<notin> set (CHR ''{'' # rest)"
    using assms(1) by simp
  from 3 have x: "\<not> sublist (CHR ''{'' # rest) x"
    and IH: "\<not> sublist (CHR ''{'' # rest) (join ''\<newline>'' (map (\<lambda>r. ''- '' @ r) (y # zs)))"
    by simp_all
  have "join ''\<newline>'' (map (\<lambda>r. ''- '' @ r) (x # y # zs))
          = (''- '' @ x) @ CHR 0x0A # join ''\<newline>'' (map (\<lambda>r. ''- '' @ r) (y # zs))"
    by simp
  then show ?case
    using x IH by (simp only: sublist_sep [OF nl]) (simp add: sublist_skip)
qed

lemma buildPrompt_clean:
  assumes nl: "CHR 0x0A \<notin> set rest"
    and base: "\<not> sublist (CHR ''{'' # rest) (substituted k t)"
    and ctx: "\<not> mentions (CHR ''{'' # rest) ctx"
    and rel: "given (rfpContent ctx) \<noteq> [] \<longrightarrow>
              \<not> str_includes (CHR ''{'' # rest) (relevant (given (rfpContent ctx)) k)"
  shows "\<not> sublist (CHR ''{'' # rest) (buildPrompt relevant k ctx t)"
proof -
  let ?tok = "CHR ''{'' # rest"
  have n: "CHR 0x0A \<notin> set ?tok" using nl by simp
  from ctx have c1: "\<not> sublist ?tok (given (rfpContent ctx))"
    and c2: "\<not> sublist ?tok (given (companyProfile ctx))"
    and c3: "\<forall>r \<in> set (given (requirements ctx)). \<not> sublist ?tok r"
    and c4: "\<forall>r \<in> set (given (constraints ctx)). \<not> sublist ?tok r"
    and c5: "\<not> sublist ?tok (given (targetAudience ctx))"
    by (simp_all add: mentions_def str_includes_sublist)
  note j3 = join_items_clean [OF nl c3]
  note j4 = join_items_clean [OF nl c4]
  from rel have r: "given (rfpContent ctx) \<noteq> [] \<Longrightarrow>
      \<not> sublist ?tok (relevant (given (rfpContent ctx)) k)"
    by (simp add: str_includes_sublist)
  define p1 where "p1 =
    (if given (rfpContent ctx) \<noteq> []
     then substituted k t @ ''\<newline>\<newline>RFP Content:\<newline>'' @ given (rfpContent ctx)
     else substituted k t)"
  define p2 where "p2 =
    (if given (companyProfile ctx) \<noteq> []
     then p1 @ ''\<newline>\<newline>Company Profile:\<newline>'' @ given (companyProfile ctx)
     else p1)"
  define p3 where "p3 =
    (if given (requirements ctx) \<noteq> []
     then p2 @ ''\<newline>\<newline>Key Requirements:\<newline>''
            @ join ''\<newline>'' (map (\<lambda>req. ''- '' @ req) (given (requirements ctx)))
     else p2)"
  define p4 where "p4 =
    (if given (constraints ctx) \<noteq> []
     then p3 @ ''\<newline>\<newline>Constraints:\<newline>''
            @ join ''\<newline>'' (map (\<lambda>c. ''- '' @ c) (given (constraints ctx)))
     else p3)"
  define p5 where "p5 =
    (if given (targetAudience ctx) \<noteq> []
     then p4 @ ''\<newline>\<newline>Target Audience:\<newline>'' @ given (targetAudience ctx)
     else p4)"
  define p6 where "p6 =
    (if given (rfpContent ctx) \<noteq> [] \<and> relevant (given (rfpContent ctx)) k \<noteq> []
     then p5 @ ''\<newline>\<newline>Relevant Company Information:\<newline>''
            @ relevant (given (rfpContent ctx)) k
     else p5)"
  have 1: "\<not> sublist ?tok p1"
    unfolding p1_def using base c1 by (simp add: sublist_sep [OF n] sublist_skip)
  have 2: "\<not> sublist ?tok p2"
    unfolding p2_def using 1 c2 by (simp add: sublist_sep [OF n] sublist_skip)
  have 3: "\<not> sublist ?tok p3"
    unfolding p3_def using 2 by (simp add: sublist_sep [OF n] sublist_skip j3)
  have 4: "\<not> sublist ?tok p4"
    unfolding p4_def using 3 by (simp add: sublist_sep [OF n] sublist_skip j4)
  have 5: "\<not> sublist ?tok p5"
    unfolding p5_def using 4 c5 by (simp add: sublist_sep [OF n] sublist_skip)
  have 6: "\<not> sublist ?tok p6"
    unfolding p6_def using 5 r by (simp add: sublist_sep [OF n] sublist_skip)
  have "buildPrompt relevant k ctx t = p6"
    unfolding buildPrompt_def Let_def substituted_def [symmetric]
      p1_def [symmetric] p2_def [symmetric] p3_def [symmetric] p4_def [symmetric]
      p5_def [symmetric]
    by (simp add: p6_def)
  with 6 show ?thesis by simp
qed

lemma substituted_company_overview:
  "CHR ''{'' \<notin> set (substituted sectionType template_company_overview)"
proof -
  have "CHR ''{'' \<notin> set (promptTemplate template_company_overview)"
    by (simp add: template_company_overview_def)
  then show ?thesis
    by (simp add: substituted_def replace_absent)
qed

lemma substituted_technical_approach:
  "CHR ''{'' \<notin> set (substituted sectionType template_technical_approach)"
proof -
  have "CHR ''{'' \<notin> set (promptTemplate template_technical_approach)"
    by (simp add: template_technical_approach_def)
  then show ?thesis
    by (simp add: substituted_def replace_absent)
qed

lemma substituted_project_timeline:
  "CHR ''{'' \<notin> set (substituted sectionType template_project_timeline)"
proof -
  have "CHR ''{'' \<notin> set (promptTemplate template_project_timeline)"
    by (simp add: template_project_timeline_def)
  then show ?thesis
    by (simp add: substituted_def replace_absent)
qed

lemma substituted_team_structure:
  "CHR ''{'' \<notin> set (substituted sectionType template_team_structure)"
proof -
  have "CHR ''{'' \<notin> set (promptTemplate template_team_structure)"
    by (simp add: template_team_structure_def)
  then show ?thesis
    by (simp add: substituted_def replace_absent)
qed

lemma substituted_pricing:
  "CHR ''{'' \<notin> set (substituted sectionType template_pricing)"
proof -
  have "CHR ''{'' \<notin> set (promptTemplate template_pricing)"
    by (simp add: template_pricing_def)
  then show ?thesis
    by (simp add: substituted_def replace_absent)
qed

lemma substituted_references:
  "CHR ''{'' \<notin> set (substituted sectionType template_references)"
proof -
  have "CHR ''{'' \<notin> set (promptTemplate template_references)"
    by (simp add: template_references_def)
  then show ?thesis
    by (simp add: substituted_def replace_absent)
qed

lemma substituted_compliance:
  "CHR ''{'' \<notin> set (substituted sectionType template_compliance)"
proof -
  have "CHR ''{'' \<notin> set (promptTemplate template_compliance)"
    by (simp add: template_compliance_def)
  then show ?thesis
    by (simp add: substituted_def replace_absent)
qed

lemma expand_plain: "CHR ''$'' \<notin> set rep \<Longrightarrow> expand_replacement m b a rep = rep"
  by (induction m b a rep rule: expand_replacement.induct) auto

lemma substituted_executive_summary:
  "CHR ''{'' \<notin> set (substituted ''executive-summary'' template_executive_summary)"
proof -
  obtain post where
    split: "promptTemplate template_executive_summary
              = ''Create a compelling executive summary for the '' @ ''{sectionType}'' @ post"
    and post: "CHR ''{'' \<notin> set post"
    by (simp add: template_executive_summary_def)
  have "find_first ''{sectionType}'' (promptTemplate template_executive_summary)
          = Some (''Create a compelling executive summary for the '', post)"
    unfolding split
    using find_first_here [of "CHR ''{''" "''Create a compelling executive summary for the ''"
        "''sectionType}''" post]
    by simp
  then have "replace (promptTemplate template_executive_summary) ''{sectionType}''
               ''executive-summary''
             = ''Create a compelling executive summary for the '' @ ''executive-summary'' @ post"
    by (simp add: replace_def expand_plain)
  moreover have "CHR ''{'' \<notin> set (''Create a compelling executive summary for the ''
                    @ ''executive-summary'' @ post)"
    using post by simp
  ultimately show ?thesis
    by (simp add: substituted_def replace_absent)
qed

lemma templates_no_brace:
  "(k, t) \<in> set getSectionTemplates \<Longrightarrow> CHR ''{'' \<notin> set (substituted k t)"
  unfolding getSectionTemplates_def
  using substituted_executive_summary substituted_company_overview
    substituted_technical_approach substituted_project_timeline substituted_team_structure
    substituted_pricing substituted_references substituted_compliance
  by auto

section \<open>Read boundaries\<close>




section \<open>A stream that ends with the sentinel\<close>

text \<open>
  C2. On a stream that delivers content deltas and then the sentinel \<^verbatim>\<open>[DONE]\<close>
  (frames \<^verbatim>\<open>data: payload\<close>, none split between two reads, each payload parsing to an
  object whose \<^verbatim>\<open>choices[0].delta.content\<close> is a non-empty string), the promise of
  \<^verbatim>\<open>generateSection\<close> resolves with the concatenation of the deltas, and the last
  progress event has status completed, progress 100 and that text as content. For the
  deltas \<^verbatim>\<open>"Hello"\<close> and \<^verbatim>\<open>" world"\<close> this is \<^verbatim>\<open>"Hello world"\<close>.
\<close>

theorem generateSection_completed:
  assumes "enableAIGeneration cfg" and "ok r" and "body r = Some (reads, e)"
    and "whole_lines reads"
    and "concat reads = concat (map sse_frame payloads) @ sse_frame ''[DONE]''"
    and "list_all2 carries payloads texts"
  shows "\<exists>evs s'.
           generateSection toStr relevant cfg s sid ctx tmpl (Response r)
             = (evs, Resolved (concat texts), s')
           \<and> last evs = Progress \<lparr>sectionId = sid, status = Completed, progress = 100,
                           content = Some (concat texts), error = None\<rparr>
           \<and> chunks evs = map JStr texts"
  using assms(1-3) read_loop_frames [OF assms(4-6), of toStr sid e]
  by (simp add: generateSection_def stream_response_def Let_def completed_def comp_def
      split: option.splits)

theorem generateSection_completed_witness:
  "whole_lines [sse_frame (delta_payload ''Hello''), sse_frame (delta_payload '' world''),
                sse_frame ''[DONE]'']
   \<and> list_all2 carries [delta_payload ''Hello'', delta_payload '' world''] [''Hello'', '' world'']
   \<and> (\<exists>evs s'.
         generateSection no_conversion no_excerpt enabled_config fresh_service ''pricing''
             no_context template_pricing
             (streamed [sse_frame (delta_payload ''Hello''), sse_frame (delta_payload '' world''),
                        sse_frame ''[DONE]''] Done)
           = (evs, Resolved ''Hello world'', s')
         \<and> last evs = Progress \<lparr>sectionId = ''pricing'', status = Completed, progress = 100,
                         content = Some ''Hello world'', error = None\<rparr>
         \<and> chunks evs = [JStr ''Hello'', JStr '' world''])"
proof -
  have w: "whole_lines [sse_frame (delta_payload ''Hello''), sse_frame (delta_payload '' world''),
                sse_frame ''[DONE]'']"
    by (simp add: whole_lines_def sse_frame_def)
  have c: "list_all2 carries [delta_payload ''Hello'', delta_payload '' world'']
             [''Hello'', '' world'']"
    by (simp add: carries_Hello carries_world)
  show ?thesis
    using w c
      generateSection_completed [of enabled_config
        "\<lparr>ok = True, http_status = 200, statusText = ''OK'',
          body = Some ([sse_frame (delta_payload ''Hello''), sse_frame (delta_payload '' world''),
                sse_frame ''[DONE]''], Done)\<rparr>"
        "[sse_frame (delta_payload ''Hello''), sse_frame (delta_payload '' world''),
                sse_frame ''[DONE]'']" Done
        "[delta_payload ''Hello'', delta_payload '' world'']" "[''Hello'', '' world'']"
        no_conversion no_excerpt fresh_service "''pricing''" no_context template_pricing]
    by (simp add: streamed_def enabled_config_def)
qed

section \<open>Reporting of failures\<close>




section \<open>Entries of the batch result\<close>




section \<open>Validation and the network call\<close>

text \<open>
  C5, as amended. \<^verbatim>\<open>validateDocumentContent\<close> is a predicate of its own, which the
  callers run before \<^verbatim>\<open>analyzeDocument\<close>: it accepts a content exactly when the trimmed
  content has at least 50 characters, and names the empty (or white-space only) content
  and the too short one in its error. \<^verbatim>\<open>analyzeDocument\<close> does not call it: with the
  feature enabled it issues its one network request for every document content, valid or
  not; only the disabled feature flag makes it fail without a request.
\<close>

theorem analyzeDocument_requests_unvalidated:
  "(enableAIGeneration cfg \<longrightarrow>
      requests (fst (analyzeDocument message cfg s documentContent net))
        = [\<lparr>prompt = buildAnalysisPrompt documentContent, max_tokens = openai_maxTokens cfg,
            stream = False, signal = created s\<rparr>])
   \<and> (\<not> enableAIGeneration cfg \<longrightarrow>
      requests (fst (analyzeDocument message cfg s documentContent net)) = [])
   \<and> (isValid (validateDocumentContent documentContent)
        \<longleftrightarrow> 50 \<le> length (trim documentContent))
   \<and> (trim documentContent = [] \<longrightarrow>
        validation_error (validateDocumentContent documentContent)
          = Some ''Document content is empty'')
   \<and> (trim documentContent \<noteq> [] \<longrightarrow> length (trim documentContent) < 50 \<longrightarrow>
        validation_error (validateDocumentContent documentContent)
          = Some ''Document content is too short for meaningful analysis'')"
proof (intro conjI impI)
  assume "enableAIGeneration cfg"
  then show "requests (fst (analyzeDocument message cfg s documentContent net))
        = [\<lparr>prompt = buildAnalysisPrompt documentContent, max_tokens = openai_maxTokens cfg,
            stream = False, signal = created s\<rparr>]"
    by (rule requests_analyzeDocument)
next
  assume "\<not> enableAIGeneration cfg"
  then show "requests (fst (analyzeDocument message cfg s documentContent net)) = []"
    by (simp add: analyzeDocument_def)
next
  show "isValid (validateDocumentContent documentContent)
        \<longleftrightarrow> 50 \<le> length (trim documentContent)"
    by (cases "documentContent = []") (auto simp add: validateDocumentContent_def trim_Nil)
next
  assume "trim documentContent = []"
  then show "validation_error (validateDocumentContent documentContent)
          = Some ''Document content is empty''"
    by (simp add: validateDocumentContent_def)
next
  assume "trim documentContent \<noteq> []" and "length (trim documentContent) < 50"
  then show "validation_error (validateDocumentContent documentContent)
          = Some ''Document content is too short for meaningful analysis''"
    by (cases "documentContent = []") (auto simp add: validateDocumentContent_def trim_Nil)
qed

theorem analyzeDocument_requests_unvalidated_witness:
  "enableAIGeneration enabled_config \<and> \<not> enableAIGeneration disabled_config
   \<and> trim '' '' = []
   \<and> \<not> isValid (validateDocumentContent '' '')
   \<and> validation_error (validateDocumentContent '' '') = Some ''Document content is empty''
   \<and> requests (fst (analyzeDocument engine_message enabled_config fresh_service '' ''
         (replied ''{}'')))
       = [\<lparr>prompt = buildAnalysisPrompt '' '', max_tokens = 2000, stream = False, signal = 0\<rparr>]
   \<and> requests (fst (analyzeDocument engine_message disabled_config fresh_service '' ''
         (replied ''{}''))) = []
   \<and> trim ''too short'' \<noteq> [] \<and> length (trim ''too short'') < 50
   \<and> validation_error (validateDocumentContent ''too short'')
       = Some ''Document content is too short for meaningful analysis''"
  using analyzeDocument_requests_unvalidated [of enabled_config engine_message fresh_service
      "'' ''" "replied ''{}''"]
    analyzeDocument_requests_unvalidated [of disabled_config engine_message fresh_service
      "'' ''" "replied ''{}''"]
    analyzeDocument_requests_unvalidated [of enabled_config engine_message fresh_service
      "''too short''" "replied ''{}''"]
  by (simp add: enabled_config_def disabled_config_def fresh_service_def trim_def is_space_def)

text \<open>
  C5, as stated, fails: the empty document is invalid for \<^verbatim>\<open>validateDocumentContent\<close>,
  and \<^verbatim>\<open>analyzeDocument\<close> still sends its request for it.
\<close>

theorem empty_document_counterexample:
  "\<not> isValid (validateDocumentContent [])
   \<and> requests (fst (analyzeDocument engine_message enabled_config fresh_service []
         (replied ''{}'')))
       = [\<lparr>prompt = buildAnalysisPrompt [], max_tokens = 2000, stream = False, signal = 0\<rparr>]"
  by (simp add: requests_analyzeDocument validateDocumentContent_def enabled_config_def
      fresh_service_def)

section \<open>Extraction of the JSON object\<close>




section \<open>Properties of the document analyzer's post-processing\<close>

text \<open>
  C7. For every parsed analysis object, \<^verbatim>\<open>processAnalysis\<close> returns a structurally
  total result: every field and sub-field of \<^verbatim>\<open>DocumentAnalysis\<close> is present; a
  collection that the input lacks is the empty array (in particular \<^verbatim>\<open>stakeholders\<close>),
  a string that it lacks is \<^verbatim>\<open>'Not specified'\<close> and a confidence that it lacks is 0.5.
\<close>

theorem processAnalysis_total:
  "\<exists>r. processAnalysis (JObj kvs) = Some r \<and> structurally_total (JObj kvs) r
       \<and> (get_prop (JObj kvs) ''stakeholders'' = None
            \<longrightarrow> get_prop r ''stakeholders'' = Some (JArr []))"
  by (simp add: processAnalysis_def structurally_total_def groups_def top_lists_def
      present_def filled_def Let_def Not_specified_def default_confidence_def)

theorem processAnalysis_total_witness:
  "get_prop (JObj [(''redFlags'', JArr [JStr ''x''])]) ''stakeholders'' = None
   \<and> (\<exists>r. processAnalysis (JObj [(''redFlags'', JArr [JStr ''x''])]) = Some r
        \<and> structurally_total (JObj [(''redFlags'', JArr [JStr ''x''])]) r
        \<and> get_prop r ''stakeholders'' = Some (JArr [])
        \<and> get_prop r ''redFlags'' = Some (JArr [JStr ''x'']))"
  using processAnalysis_total [of "[(''redFlags'', JArr [JStr ''x''])]"]
  by (auto simp add: processAnalysis_def)

section \<open>No placeholder is left in the prompt\<close>

text \<open>
  C8, as amended. For every template of \<^verbatim>\<open>getSectionTemplates\<close>, with its own key as
  section identifier, and for every generation context whose texts (and the excerpt looked
  up for it) do not themselves contain the token, the string \<^verbatim>\<open>buildPrompt\<close> returns
  contains no \<^verbatim>\<open>{sectionType}\<close> and no \<^verbatim>\<open>{templateName}\<close>: the templates use each
  placeholder at most once, so replacing the first occurrence removes it. The context is
  appended as it is.
\<close>

theorem no_placeholder_left:
  assumes "(k, t) \<in> set getSectionTemplates" and "tok \<in> set placeholders"
    and "\<not> mentions tok ctx"
    and "given (rfpContent ctx) \<noteq> [] \<longrightarrow>
         \<not> str_includes tok (relevant (given (rfpContent ctx)) k)"
  shows "\<not> str_includes tok (buildPrompt relevant k ctx t)"
proof -
  from assms(2) obtain rest where tok: "tok = CHR ''{'' # rest" and nl: "CHR 0x0A \<notin> set rest"
    by (auto simp add: placeholders_def)
  have base: "\<not> sublist (CHR ''{'' # rest) (substituted k t)"
    by (rule no_brace_no_token) (rule templates_no_brace [OF assms(1)])
  show ?thesis
    using buildPrompt_clean [OF nl base] assms(3,4)
    by (simp add: tok str_includes_sublist)
qed

theorem no_placeholder_left_witness:
  "(''executive-summary'', template_executive_summary) \<in> set getSectionTemplates
   \<and> ''{sectionType}'' \<in> set placeholders
   \<and> \<not> mentions ''{sectionType}'' sample_context
   \<and> \<not> str_includes ''{sectionType}''
         (no_excerpt (given (rfpContent sample_context)) ''executive-summary'')
   \<and> str_includes ''{sectionType}'' (promptTemplate template_executive_summary)
   \<and> \<not> str_includes ''{sectionType}''
         (buildPrompt no_excerpt ''executive-summary'' sample_context
            template_executive_summary)"
proof -
  have a: "(''executive-summary'', template_executive_summary) \<in> set getSectionTemplates"
    by (simp add: getSectionTemplates_def)
  have b: "''{sectionType}'' \<in> set placeholders"
    by (simp add: placeholders_def)
  have c: "\<not> mentions ''{sectionType}'' sample_context"
    by (simp add: mentions_def sample_context_def str_includes_sublist no_brace_no_token)
  have d: "\<not> str_includes ''{sectionType}''
         (no_excerpt (given (rfpContent sample_context)) ''executive-summary'')"
    by (simp add: no_excerpt_def str_includes_sublist)
  have e: "str_includes ''{sectionType}'' (promptTemplate template_executive_summary)"
  proof -
    obtain post where "promptTemplate template_executive_summary
              = ''Create a compelling executive summary for the '' @ ''{sectionType}'' @ post"
      by (simp add: template_executive_summary_def)
    then show ?thesis
      unfolding str_includes_sublist sublist_def by blast
  qed
  from no_placeholder_left [OF a b c] d a b c e show ?thesis by blast
qed

text \<open>
  C8, as stated, fails for a context that contains the token: the texts of the context are
  appended after the substitution and are not touched by it.
\<close>

theorem token_in_context_counterexample:
  "(''compliance'', template_compliance) \<in> set getSectionTemplates
   \<and> str_includes ''{templateName}''
        (buildPrompt no_excerpt ''compliance'' token_context template_compliance)"
proof -
  have "buildPrompt no_excerpt ''compliance'' token_context template_compliance
          = (substituted ''compliance'' template_compliance @ ''\<newline>\<newline>RFP Content:\<newline>Use '')
              @ ''{templateName}'' @ '' here.''"
    by (simp add: buildPrompt_def token_context_def no_excerpt_def Let_def
        substituted_def [symmetric])
  then have "sublist ''{templateName}''
      (buildPrompt no_excerpt ''compliance'' token_context template_compliance)"
    unfolding sublist_def by blast
  then show ?thesis
    by (simp add: str_includes_sublist getSectionTemplates_def)
qed

section \<open>The cancellation handle\<close>

lemma parse_empty_object: "JSON_parse ''{}'' = Some (JObj [])"
  by code_simp

text \<open>
  C9. The claim asks that the handle of either service is overwritten by each call and
  absent again once the call has completed or failed. \<^verbatim>\<open>generateSection\<close> does that in
  its \<^verbatim>\<open>finally\<close>, and \<^verbatim>\<open>cancelGeneration\<close> resets the handle too. The analyzer does
  not: after a call of \<^verbatim>\<open>analyzeDocument\<close> that completed, after one that failed, and
  after \<^verbatim>\<open>cancelAnalysis\<close>, the handle still holds the controller of the call.
\<close>

theorem analyzer_keeps_controller:
  "snd (snd (analyzeDocument engine_message enabled_config fresh_service ''document''
               (replied ''{}'')))
     = \<lparr>abortController = Some 0, created = 1\<rparr>
   \<and> (\<exists>r. fst (snd (analyzeDocument engine_message enabled_config fresh_service ''document''
               (replied ''{}''))) = Resolved r)
   \<and> snd (snd (analyzeDocument engine_message enabled_config fresh_service ''document''
               (refused 500 ''Internal Server Error'' (JsonValue JNull))))
     = \<lparr>abortController = Some 0, created = 1\<rparr>
   \<and> cancelAnalysis \<lparr>abortController = Some 0, created = 1\<rparr>
     = ([Abort 0], \<lparr>abortController = Some 0, created = 1\<rparr>)
   \<and> snd (snd (generateSection no_conversion no_excerpt enabled_config fresh_service ''pricing''
               no_context template_pricing (streamed [sse_frame ''[DONE]''] Done)))
     = \<lparr>abortController = None, created = 1\<rparr>
   \<and> snd (snd (generateSection no_conversion no_excerpt enabled_config fresh_service ''pricing''
               no_context template_pricing (refused 500 ''Internal Server Error'' None)))
     = \<lparr>abortController = None, created = 1\<rparr>
   \<and> cancelGeneration \<lparr>abortController = Some 0, created = 1\<rparr>
     = ([Abort 0], \<lparr>abortController = None, created = 1\<rparr>)"
  by (simp add: analyzeDocument_def generateSection_def cancelAnalysis_def cancelGeneration_def
      enabled_config_def fresh_service_def replied_def refused_def streamed_def Let_def
      read_analysis_def interpret_data_def interpret_reply_def message_content_def
      jsonMatch_def upto_last_def parse_empty_object processAnalysis_def
      stream_response_def sse_frame_def data_line_def process_line_def
      split: prod.splits)

section \<open>A stream that ends without the sentinel\<close>

text \<open>
  C10. When the reader reports the end of the stream and no line of any read was the
  sentinel \<^verbatim>\<open>data: [DONE]\<close>, \<^verbatim>\<open>generateSection\<close> resolves with the accumulated
  content (the text its chunks delivered), no progress event has status completed, and
  the last progress event has status generating: it carries the accumulated content, or
  it is the initial event when no chunk was delivered.
\<close>

theorem stream_end_without_done:
  assumes "enableAIGeneration cfg" and "ok r" and "body r = Some (reads, Done)"
    and "\<forall>chunk \<in> set reads. ''data: [DONE]'' \<notin> set (split_lines chunk)"
  shows "\<exists>evs text s'.
           generateSection toStr relevant cfg s sid ctx tmpl (Response r)
             = (evs, Resolved text, s')
           \<and> text = delivered toStr evs
           \<and> (\<forall>p \<in> set (progress_events evs). status p = Generating)
           \<and> progress_events evs \<noteq> []
           \<and> content (last (progress_events evs))
                = (if chunks evs = [] then None else Some text)"
proof -
  let ?ls = "concat (map split_lines reads)"
  let ?ds = "deltas toStr ?ls"
  from assms(4) have nd: "DONE \<notin> set ?ls" by (auto simp: DONE_def)
  have loop: "read_loop toStr sid ([], 0) reads Done
                = (emit sid ([], 0) ?ds, Resolved (concat (map snd ?ds)))"
    by (simp add: read_loop_lines run_lines_def process_lines_no_done [OF nd] at_end_def
        fst_advance)
  have del: "delivered toStr (emit sid ([], 0) ?ds) = concat (map snd ?ds)"
    by (rule delivered_emit) (auto dest: deltas_text)
  show ?thesis
    using assms(1-3) loop del status_emit [of _ sid "([], 0)" ?ds]
      last_progress_emit [of ?ds sid "([], 0)"]
    by (cases "?ds = []")
      (auto simp add: generateSection_def stream_response_def Let_def delivered_def
        fst_advance split: option.splits)
qed

theorem stream_end_without_done_witness:
  "enableAIGeneration enabled_config
   \<and> ''data: [DONE]'' \<notin> set (split_lines (sse_frame (delta_payload ''ab'')))
   \<and> (\<exists>evs s'.
         generateSection no_conversion no_excerpt enabled_config fresh_service ''compliance''
             no_context template_compliance (streamed [sse_frame (delta_payload ''ab'')] Done)
           = (evs, Resolved (delivered no_conversion evs), s')
         \<and> (\<forall>p \<in> set (progress_events evs). status p = Generating)
         \<and> progress_events evs \<noteq> []
         \<and> content (last (progress_events evs))
              = (if chunks evs = [] then None else Some (delivered no_conversion evs)))"
  using stream_end_without_done [of enabled_config
      "\<lparr>ok = True, http_status = 200, statusText = ''OK'',
        body = Some ([sse_frame (delta_payload ''ab'')], Done)\<rparr>"
      "[sse_frame (delta_payload ''ab'')]" no_conversion no_excerpt fresh_service
      "''compliance''" no_context template_compliance]
  by (simp add: streamed_def enabled_config_def sse_frame_def data_line_def delta_payload_def)


end
